theory Spec2Isabelle
  imports Main "HOL-Library.Word"
begin

unbundle bit_operations_syntax

text \<open>
  A shallow embedding of the frame-conversion and presentation core of the camera preview:
  the geometry helpers and the Direct3D device of \<open>device.cpp\<close>, the converters of
  \<open>FormatConvertor.cpp\<close>, the buffer lock of \<open>BufferLock.h\<close> and the resize entry point
  of \<open>preview.cpp\<close>.  The program comes first, then the definitions used to state its
  properties, then the properties.
\<close>

section \<open>Geometry (device.cpp)\<close>

text \<open>
  \<open>LONG\<close> and \<open>int\<close> are 32-bit two's-complement integers.  They are held as integers
  here, and every result of \<open>+\<close> and \<open>-\<close> on them passes through \<open>int32\<close>, the value the
  32-bit variable holds afterwards: the result reduced modulo \<open>2^32\<close> into
  \<open>-2^31 .. 2^31-1\<close>.  (Signed overflow is undefined in C++; the compiled code wraps.)
\<close>

definition int32 :: "int \<Rightarrow> int" where
  "int32 k = (k + 2147483648) mod 4294967296 - 2147483648"

text \<open>A Win32 \<open>RECT\<close> has four \<open>LONG\<close> fields.\<close>

record RECT =
  left :: int
  top :: int
  right :: int
  bottom :: int

text \<open>
  The values a \<open>LONG\<close> can hold, and the rectangles whose four fields are such values:
  the rectangles the code can be given.
\<close>

definition is_LONG :: "int \<Rightarrow> bool" where
  "is_LONG k \<longleftrightarrow> - 2147483648 \<le> k \<and> k \<le> 2147483647"

definition valid_RECT :: "RECT \<Rightarrow> bool" where
  "valid_RECT r \<longleftrightarrow> is_LONG (left r) \<and> is_LONG (top r) \<and> is_LONG (right r) \<and> is_LONG (bottom r)"

text \<open>\<open>MFRatio\<close> holds two \<open>DWORD\<close>s.\<close>

record MFRatio =
  Numerator :: "32 word"
  Denominator :: "32 word"

definition Width :: "RECT \<Rightarrow> int" where
  "Width r = int32 (right r - left r)"

definition Height :: "RECT \<Rightarrow> int" where
  "Height r = int32 (bottom r - top r)"

text \<open>
  Modelled from the spec: \<open>MulDiv\<close> is the Win32 primitive the geometry functions call;
  its body is not part of the repository.  The spec asks for rounded-integer scaling
  (\<open>round(a*b/c)\<close>), which is what the Win32 function does: the 64-bit product is
  divided by the denominator, rounded to the nearest integer (halves away from zero), and
  \<open>-1\<close> is returned for a zero denominator or a quotient outside the 32-bit range.
\<close>

definition MulDiv :: "int \<Rightarrow> int \<Rightarrow> int \<Rightarrow> int" where
  "MulDiv nNumber nNumerator nDenominator =
     (if nDenominator = 0 then - 1
      else let p = nNumber * nNumerator;
               q = sgn p * sgn nDenominator *
                   ((\<bar>p\<bar> + \<bar>nDenominator\<bar> div 2) div \<bar>nDenominator\<bar>)
           in if q > 2147483647 \<or> q < - 2147483647 then - 1 else q)"

text \<open>C++ \<open>/\<close> on \<open>int\<close> truncates towards zero.\<close>

definition cdiv :: "int \<Rightarrow> int \<Rightarrow> int" where
  "cdiv a b = sgn a * sgn b * (\<bar>a\<bar> div \<bar>b\<bar>)"

definition LetterBoxRect :: "RECT \<Rightarrow> RECT \<Rightarrow> RECT" where
  "LetterBoxRect rcSrc rcDst =
     (let iSrcWidth = Width rcSrc;
          iSrcHeight = Height rcSrc;
          iDstWidth = Width rcDst;
          iDstHeight = Height rcDst;
          (iDstLBWidth, iDstLBHeight) =
            (if MulDiv iSrcWidth iDstHeight iSrcHeight \<le> iDstWidth
             then (MulDiv iDstHeight iSrcWidth iSrcHeight, iDstHeight)
             else (iDstWidth, MulDiv iDstWidth iSrcHeight iSrcWidth));
          l = int32 (left rcDst + cdiv (int32 (iDstWidth - iDstLBWidth)) 2);
          t = int32 (top rcDst + cdiv (int32 (iDstHeight - iDstLBHeight)) 2)
      in \<lparr> left = l, top = t,
           right = int32 (l + iDstLBWidth), bottom = int32 (t + iDstLBHeight) \<rparr>)"

text \<open>
  The ratio's fields are unsigned: they are compared as such, and converted to \<open>int\<close>
  (\<open>sint\<close>) when passed to \<open>MulDiv\<close>.
\<close>

definition CorrectAspectRatio :: "RECT \<Rightarrow> MFRatio \<Rightarrow> RECT" where
  "CorrectAspectRatio src srcPAR =
     (let rc = \<lparr> left = 0, top = 0,
                 right = int32 (right src - left src), bottom = int32 (bottom src - top src) \<rparr>
      in if Numerator srcPAR \<noteq> 1 \<or> Denominator srcPAR \<noteq> 1
         then (if Numerator srcPAR > Denominator srcPAR
               then rc \<lparr> right := MulDiv (right rc) (sint (Numerator srcPAR)) (sint (Denominator srcPAR)) \<rparr>
               else if Numerator srcPAR < Denominator srcPAR
               then rc \<lparr> bottom := MulDiv (bottom rc) (sint (Denominator srcPAR)) (sint (Numerator srcPAR)) \<rparr>
               else rc)
         else rc)"

section \<open>Pixel-format converters (FormatConvertor.cpp)\<close>

text \<open>
  Memory is a store from byte addresses to bytes.  Pointer arithmetic that leaves an object
  is undefined in C++, so addresses are unbounded integers and do not wrap; the 32-bit
  quantities added to them (strides, counters) are words and do.  The source buffer is only
  read and the destination only written, and they are different allocations (a media
  buffer and a Direct3D surface): the converters take one store for each.
\<close>

type_synonym addr = int
type_synonym mem = "addr \<Rightarrow> 8 word"

text \<open>
  \<open>RGBQUAD\<close> is the Win32 structure: four bytes in the order blue, green, red, reserved.
\<close>

record RGBQUAD =
  rgbBlue :: "8 word"
  rgbGreen :: "8 word"
  rgbRed :: "8 word"
  rgbReserved :: "8 word"

definition Clip :: "int \<Rightarrow> 8 word" where
  "Clip clr = word_of_int (if clr < 0 then 0 else (if clr > 255 then 255 else clr))"

text \<open>
  The arguments are \<open>int\<close>s that every caller reads from bytes, so the 32-bit arithmetic
  cannot overflow (lemma \<open>ConvertYCrCbToRGB_in_int32\<close>) and is done on integers; \<open>>> 8\<close>
  on a negative \<open>int\<close> is the arithmetic shift, which \<open>drop_bit\<close> on integers is.  The
  function never assigns \<open>rgbReserved\<close> of the value it returns: \<open>resv\<close> stands for
  whatever that byte happens to hold.
\<close>

definition ConvertYCrCbToRGB :: "8 word \<Rightarrow> int \<Rightarrow> int \<Rightarrow> int \<Rightarrow> RGBQUAD" where
  "ConvertYCrCbToRGB resv y cr cb =
     (let c = y - 16;
          d = cb - 128;
          e = cr - 128
      in \<lparr> rgbBlue = Clip (drop_bit 8 (298 * c + 516 * d + 128)),
           rgbGreen = Clip (drop_bit 8 (298 * c - 100 * d - 208 * e + 128)),
           rgbRed = Clip (drop_bit 8 (298 * c + 409 * e + 128)),
           rgbReserved = resv \<rparr>)"

text \<open>Storing an \<open>RGBQUAD\<close> writes its four bytes in order.\<close>

definition write_quad :: "mem \<Rightarrow> addr \<Rightarrow> RGBQUAD \<Rightarrow> mem" where
  "write_quad m a q =
     m (a := rgbBlue q, a + 1 := rgbGreen q, a + 2 := rgbRed q, a + 3 := rgbReserved q)"

text \<open>
  A \<open>uint16_t\<close> load on the (little-endian) platform: the byte at the lower address is the
  low byte.  \<open>LOBYTE\<close> and \<open>HIBYTE\<close> are the Win32 macros, not part of the repository:
  the low and the high byte of a 16-bit value.
\<close>

definition read16 :: "mem \<Rightarrow> addr \<Rightarrow> 16 word" where
  "read16 m a = (ucast (m a) :: 16 word) OR push_bit 8 (ucast (m (a + 1)) :: 16 word)"

definition LOBYTE :: "16 word \<Rightarrow> 8 word" where
  "LOBYTE w = ucast (w AND 0xff)"

definition HIBYTE :: "16 word \<Rightarrow> 8 word" where
  "HIBYTE w = ucast (drop_bit 8 w AND 0xff)"

text \<open>
  A \<open>uint32_t\<close> store, little-endian, and the colour macros defined at the top of
  \<open>FormatConvertor.cpp\<close>.
\<close>

definition write32 :: "mem \<Rightarrow> addr \<Rightarrow> 32 word \<Rightarrow> mem" where
  "write32 m a v =
     m (a := ucast v, a + 1 := ucast (drop_bit 8 v), a + 2 := ucast (drop_bit 16 v),
        a + 3 := ucast (drop_bit 24 v))"

definition D3DCOLOR_ARGB :: "8 word \<Rightarrow> 8 word \<Rightarrow> 8 word \<Rightarrow> 8 word \<Rightarrow> 32 word" where
  "D3DCOLOR_ARGB a r g b =
     push_bit 24 (ucast a AND 0xff) OR push_bit 16 (ucast r AND 0xff)
       OR push_bit 8 (ucast g AND 0xff) OR (ucast b AND 0xff)"

definition D3DCOLOR_XRGB :: "8 word \<Rightarrow> 8 word \<Rightarrow> 8 word \<Rightarrow> 32 word" where
  "D3DCOLOR_XRGB r g b = D3DCOLOR_ARGB 0xff r g b"

text \<open>
  \<open>FormatConvertorYUY2::convert\<close>.  The inner loop advances its \<open>uint32_t\<close> counter by
  two, which can wrap past \<open>width\<close>: it is a partial function, \<open>None\<close> when the loop never
  ends.  \<open>pSrcPel\<close> points to 16-bit values and \<open>pDestPel\<close> to \<open>RGBQUAD\<close>s, so index
  \<open>x\<close> is byte offset \<open>2 * x\<close> in the source and \<open>4 * x\<close> in the destination.  The
  outer loop advances by one and always ends.
\<close>

partial_function (option) YUY2_row ::
  "8 word \<Rightarrow> mem \<Rightarrow> addr \<Rightarrow> addr \<Rightarrow> 32 word \<Rightarrow> 32 word \<Rightarrow> mem \<Rightarrow> mem option" where
  "YUY2_row resv src source destination width x dst =
     (if x < width
      then let y0 = uint (LOBYTE (read16 src (source + 2 * uint x)));
               u0 = uint (HIBYTE (read16 src (source + 2 * uint x)));
               y1 = uint (LOBYTE (read16 src (source + 2 * uint (x + 1))));
               v0 = uint (HIBYTE (read16 src (source + 2 * uint (x + 1))));
               dst1 = write_quad dst (destination + 4 * uint x) (ConvertYCrCbToRGB resv y0 v0 u0);
               dst2 = write_quad dst1 (destination + 4 * uint (x + 1)) (ConvertYCrCbToRGB resv y1 v0 u0)
           in YUY2_row resv src source destination width (x + 2) dst2
      else Some dst)"

declare YUY2_row.simps [code]

text \<open>A counter below a bound can be incremented without wrapping: the measure of
  the loops that advance by one.\<close>

lemma unat_inc_below:
  assumes "(y :: 32 word) < height"
  shows "unat (y + 1) = unat y + 1"
proof -
  have "unat y < unat height" using assms by (simp add: word_less_nat_alt)
  moreover have "unat height < 2 ^ 32" using unsigned_less [of height] by simp
  ultimately have "unat y + unat (1 :: 32 word) < 2 ^ LENGTH(32)" by simp
  then show ?thesis by (simp add: unat_add_lem [THEN iffD1])
qed

lemma word_inc_measure:
  "(y :: 32 word) < height \<Longrightarrow> unat height - unat (y + 1) < unat height - unat y"
  by (simp add: unat_inc_below word_less_nat_alt diff_less_mono2)

function YUY2_rows ::
  "8 word \<Rightarrow> mem \<Rightarrow> addr \<Rightarrow> 32 word \<Rightarrow> addr \<Rightarrow> 32 word \<Rightarrow> 32 word \<Rightarrow> 32 word \<Rightarrow> 32 word \<Rightarrow> mem
     \<Rightarrow> mem option" where
  "YUY2_rows resv src source srcStride destination destStride width height y dst =
     (if y < height
      then (case YUY2_row resv src source destination width 0 dst of
              None \<Rightarrow> None
            | Some dst' \<Rightarrow>
                YUY2_rows resv src (source + uint srcStride) srcStride
                  (destination + uint destStride) destStride width height (y + 1) dst')
      else Some dst)"
  by pat_completeness auto
termination
  by (relation "measure (\<lambda>(resv, src, source, srcStride, destination, destStride, width, height, y, dst).
        unat height - unat y)") (simp_all add: word_inc_measure)

declare YUY2_rows.simps [simp del]

definition FormatConvertorYUY2_convert ::
  "8 word \<Rightarrow> mem \<Rightarrow> addr \<Rightarrow> 32 word \<Rightarrow> mem \<Rightarrow> addr \<Rightarrow> 32 word \<Rightarrow> 32 word \<Rightarrow> 32 word
     \<Rightarrow> (bool \<times> mem) option" where
  "FormatConvertorYUY2_convert resv dst destination destStride src source srcStride width height =
     (case YUY2_rows resv src source srcStride destination destStride width height 0 dst of
        None \<Rightarrow> None
      | Some dst' \<Rightarrow> Some (True, dst'))"

text \<open>
  \<open>FormatConvertorNV12::convert\<close>.  Both loops advance by two and are partial functions.
  The four byte stores per pixel (blue, green, red, then the constant 0) are one
  \<open>write_quad\<close> of the converted colour with its reserved byte set to 0.  The offsets
  \<open>height * srcStride\<close>, \<open>2 * srcStride\<close> and \<open>2 * destStride\<close> are computed in
  32 bits before they are added to a pointer.
\<close>

partial_function (option) NV12_row ::
  "8 word \<Rightarrow> mem \<Rightarrow> addr \<Rightarrow> addr \<Rightarrow> addr \<Rightarrow> addr \<Rightarrow> addr \<Rightarrow> addr \<Rightarrow> 32 word \<Rightarrow> 32 word \<Rightarrow> mem
     \<Rightarrow> mem option" where
  "NV12_row resv src lpLineY1 lpLineY2 lpLineCr lpLineCb lpDibLine1 lpDibLine2 width x dst =
     (if x < width
      then let y0 = uint (src lpLineY1);
               y1 = uint (src (lpLineY1 + 1));
               y2 = uint (src lpLineY2);
               y3 = uint (src (lpLineY2 + 1));
               cb = uint (src lpLineCb);
               cr = uint (src lpLineCr);
               dst1 = write_quad dst lpDibLine1 ((ConvertYCrCbToRGB resv y0 cr cb) \<lparr> rgbReserved := 0 \<rparr>);
               dst2 = write_quad dst1 (lpDibLine1 + 4) ((ConvertYCrCbToRGB resv y1 cr cb) \<lparr> rgbReserved := 0 \<rparr>);
               dst3 = write_quad dst2 lpDibLine2 ((ConvertYCrCbToRGB resv y2 cr cb) \<lparr> rgbReserved := 0 \<rparr>);
               dst4 = write_quad dst3 (lpDibLine2 + 4) ((ConvertYCrCbToRGB resv y3 cr cb) \<lparr> rgbReserved := 0 \<rparr>)
           in NV12_row resv src (lpLineY1 + 2) (lpLineY2 + 2) (lpLineCr + 2) (lpLineCb + 2)
                (lpDibLine1 + 8) (lpDibLine2 + 8) width (x + 2) dst4
      else Some dst)"

declare NV12_row.simps [code]

partial_function (option) NV12_rows ::
  "8 word \<Rightarrow> mem \<Rightarrow> addr \<Rightarrow> addr \<Rightarrow> addr \<Rightarrow> 32 word \<Rightarrow> addr \<Rightarrow> 32 word \<Rightarrow> 32 word \<Rightarrow> 32 word
     \<Rightarrow> 32 word \<Rightarrow> mem \<Rightarrow> mem option" where
  "NV12_rows resv src lpBitsY lpBitsCb lpBitsCr srcStride destination destStride width height y dst =
     (if y < height
      then Option.bind
             (NV12_row resv src lpBitsY (lpBitsY + uint srcStride) lpBitsCr lpBitsCb
                destination (destination + uint destStride) width 0 dst)
             (\<lambda>dst'. NV12_rows resv src (lpBitsY + uint (2 * srcStride)) (lpBitsCb + uint srcStride)
                       (lpBitsCr + uint srcStride) srcStride (destination + uint (2 * destStride))
                       destStride width height (y + 2) dst')
      else Some dst)"

declare NV12_rows.simps [code]

definition FormatConvertorNV12_convert ::
  "8 word \<Rightarrow> mem \<Rightarrow> addr \<Rightarrow> 32 word \<Rightarrow> mem \<Rightarrow> addr \<Rightarrow> 32 word \<Rightarrow> 32 word \<Rightarrow> 32 word
     \<Rightarrow> (bool \<times> mem) option" where
  "FormatConvertorNV12_convert resv dst destination destStride src source srcStride width height =
     (let lpBitsY = source;
          lpBitsCb = lpBitsY + uint (height * srcStride);
          lpBitsCr = lpBitsCb + 1
      in case NV12_rows resv src lpBitsY lpBitsCb lpBitsCr srcStride destination destStride
                width height 0 dst of
           None \<Rightarrow> None
         | Some dst' \<Rightarrow> Some (True, dst'))"

text \<open>
  \<open>FormatConvertorRGB24::convert\<close>.  \<open>RgbColor\<close> is three bytes, blue, green, red.  Both
  loops advance by one: total functions.
\<close>

function RGB24_row :: "mem \<Rightarrow> addr \<Rightarrow> addr \<Rightarrow> 32 word \<Rightarrow> 32 word \<Rightarrow> mem \<Rightarrow> mem" where
  "RGB24_row src source destination width x dst =
     (if x < width
      then RGB24_row src source destination width (x + 1)
             (write32 dst (destination + 4 * uint x)
                (D3DCOLOR_XRGB (src (source + 3 * uint x + 2)) (src (source + 3 * uint x + 1))
                   (src (source + 3 * uint x))))
      else dst)"
  by pat_completeness auto
termination
  by (relation "measure (\<lambda>(src, source, destination, width, x, dst). unat width - unat x)")
     (simp_all add: word_inc_measure)

declare RGB24_row.simps [simp del]

function RGB24_rows ::
  "mem \<Rightarrow> addr \<Rightarrow> 32 word \<Rightarrow> addr \<Rightarrow> 32 word \<Rightarrow> 32 word \<Rightarrow> 32 word \<Rightarrow> 32 word \<Rightarrow> mem \<Rightarrow> mem" where
  "RGB24_rows src source srcStride destination destStride width height y dst =
     (if y < height
      then RGB24_rows src (source + uint srcStride) srcStride (destination + uint destStride)
             destStride width height (y + 1) (RGB24_row src source destination width 0 dst)
      else dst)"
  by pat_completeness auto
termination
  by (relation "measure (\<lambda>(src, source, srcStride, destination, destStride, width, height, y, dst).
        unat height - unat y)") (simp_all add: word_inc_measure)

declare RGB24_rows.simps [simp del]

definition FormatConvertorRGB24_convert ::
  "mem \<Rightarrow> addr \<Rightarrow> 32 word \<Rightarrow> mem \<Rightarrow> addr \<Rightarrow> 32 word \<Rightarrow> 32 word \<Rightarrow> 32 word \<Rightarrow> bool \<times> mem" where
  "FormatConvertorRGB24_convert dst destination destStride src source srcStride width height =
     (True, RGB24_rows src source srcStride destination destStride width height 0 dst)"

text \<open>
  \<open>FormatConvertorRGB32::convert\<close> calls \<open>MFCopyImage\<close>, a Media Foundation function that
  is not part of the repository: it is a parameter of the model, a function from the
  arguments of the call to the \<open>HRESULT\<close> it returns and the destination it leaves.
\<close>

type_synonym copy_image =
  "mem \<Rightarrow> addr \<Rightarrow> 32 word \<Rightarrow> mem \<Rightarrow> addr \<Rightarrow> 32 word \<Rightarrow> 32 word \<Rightarrow> 32 word \<Rightarrow> 32 word \<times> mem"

definition FormatConvertorRGB32_convert ::
  "copy_image \<Rightarrow> mem \<Rightarrow> addr \<Rightarrow> 32 word \<Rightarrow> mem \<Rightarrow> addr \<Rightarrow> 32 word \<Rightarrow> 32 word \<Rightarrow> 32 word
     \<Rightarrow> bool \<times> mem" where
  "FormatConvertorRGB32_convert MFCopyImage dst destination destStride src source srcStride width height =
     (let (hr, dst') = MFCopyImage dst destination destStride src source srcStride (width * 4) height
      in (hr = 0, dst'))"

text \<open>
  The four converter classes, in the order of the \<open>formatConversions\<close> table, and the
  virtual call \<open>convert\<close>.  \<open>None\<close> is a call that never returns.
\<close>

datatype FormatConvertor =
  FormatConvertorRGB32 | FormatConvertorRGB24 | FormatConvertorYUY2 | FormatConvertorNV12

definition convert ::
  "FormatConvertor \<Rightarrow> copy_image \<Rightarrow> 8 word \<Rightarrow> mem \<Rightarrow> addr \<Rightarrow> 32 word \<Rightarrow> mem \<Rightarrow> addr \<Rightarrow> 32 word
     \<Rightarrow> 32 word \<Rightarrow> 32 word \<Rightarrow> (bool \<times> mem) option" where
  "convert this MFCopyImage resv dst destination destStride src source srcStride width height =
     (case this of
        FormatConvertorRGB32 \<Rightarrow>
          Some (FormatConvertorRGB32_convert MFCopyImage dst destination destStride src source srcStride width height)
      | FormatConvertorRGB24 \<Rightarrow>
          Some (FormatConvertorRGB24_convert dst destination destStride src source srcStride width height)
      | FormatConvertorYUY2 \<Rightarrow>
          FormatConvertorYUY2_convert resv dst destination destStride src source srcStride width height
      | FormatConvertorNV12 \<Rightarrow>
          FormatConvertorNV12_convert resv dst destination destStride src source srcStride width height)"

section \<open>Buffer lock (BufferLock.h)\<close>

text \<open>
  An \<open>HRESULT\<close> is a 32-bit value; \<open>FAILED\<close> is the Win32 macro (the value is negative
  when read as signed) and \<open>S_OK\<close> is 0.
\<close>

type_synonym HRESULT = "32 word"

definition FAILED :: "HRESULT \<Rightarrow> bool" where
  "FAILED hr = (sint hr < 0)"

text \<open>
  The calls the code makes on the platform (Direct3D 9, Media Foundation, the window
  system), and the conversion it runs, in the order it makes them.  COM reference counting
  (\<open>AddRef\<close>, and \<open>Release\<close> of the temporaries held by guards) is left out.
\<close>

datatype call =
    Direct3DCreate9 | D3D_GetAdapterDisplayMode | D3D_CheckDeviceType | D3D_CreateDevice
  | Device_TestCooperativeLevel | Device_Reset | Device_CreateAdditionalSwapChain
  | Release_SwapChain | Release_Device | Release_D3D | GetClientRect
  | SwapChain_GetBackBuffer | Surface_LockRect | Surface_UnlockRect
  | Buffer_Lock2D | Buffer_Lock | Buffer_Unlock2D | Buffer_Unlock
  | Convert FormatConvertor bool
  | Device_GetBackBuffer | Device_ColorFill | Device_StretchRect | Device_Present
  | MessageBox

text \<open>
  An \<open>IMFMediaBuffer\<close> as the lock sees it: whether it also exposes \<open>IMF2DBuffer\<close>,
  what \<open>Lock2D\<close> and \<open>Lock\<close> answer, and the bytes behind the pointers they return.
  The null pointer is address \<open>0\<close>.
\<close>

record media_buffer =
  supports_2D :: bool
  Lock2D_hr :: HRESULT
  Lock2D_scanline :: addr
  Lock2D_pitch :: "32 word"
  Lock_hr :: HRESULT
  Lock_data :: addr
  bytes :: mem

text \<open>\<open>long\<close> is 32 bits wide on the platform, so \<open>mActualStride\<close> is a 32-bit word
  read as signed.\<close>

record VideoBufferLock =
  mActualStride :: "32 word"
  m2DBuffer :: bool
  mLocked :: bool

definition VideoBufferLock_new :: "media_buffer \<Rightarrow> VideoBufferLock" where
  "VideoBufferLock_new pBuffer =
     \<lparr> mActualStride = 0, m2DBuffer = supports_2D pBuffer, mLocked = False \<rparr>"

text \<open>
  \<open>stride\<close> and \<open>height\<close> are \<open>uint32_t\<close> parameters: the test \<open>stride < 0\<close> is
  an unsigned comparison, and \<open>abs(long(stride)) * (height - 1)\<close> is computed in 32 bits.
\<close>

definition LockBuffer ::
  "media_buffer \<Rightarrow> 32 word \<Rightarrow> 32 word \<Rightarrow> VideoBufferLock \<Rightarrow> addr \<times> VideoBufferLock \<times> call list" where
  "LockBuffer pBuffer stride height this =
     (let this = this \<lparr> mLocked := False, mActualStride := 0 \<rparr>
      in if m2DBuffer this
         then (if FAILED (Lock2D_hr pBuffer) then (0, this, [Buffer_Lock2D])
               else (Lock2D_scanline pBuffer,
                     this \<lparr> mActualStride := Lock2D_pitch pBuffer, mLocked := True \<rparr>,
                     [Buffer_Lock2D]))
         else (if FAILED (Lock_hr pBuffer) then (0, this, [Buffer_Lock])
               else let this = this \<lparr> mLocked := True, mActualStride := stride \<rparr>
                    in if stride < 0
                       then (Lock_data pBuffer
                               + uint ((word_of_int \<bar>sint stride\<bar> :: 32 word) * (height - 1)),
                             this, [Buffer_Lock])
                       else (Lock_data pBuffer, this, [Buffer_Lock])))"

definition getStride :: "VideoBufferLock \<Rightarrow> int" where
  "getStride this = sint (mActualStride this)"

definition unlock :: "VideoBufferLock \<Rightarrow> VideoBufferLock \<times> call list" where
  "unlock this =
     (if \<not> mLocked this then (this, [])
      else (this \<lparr> mLocked := False \<rparr>, [if m2DBuffer this then Buffer_Unlock2D else Buffer_Unlock]))"

section \<open>Presentation device (device.cpp)\<close>

text \<open>
  What \<open>IDirect3DDevice9::TestCooperativeLevel\<close> returns, as the \<open>switch\<close> on it tells
  the values apart: the three it names, and any other.
\<close>

datatype cooperative_level = D3D_OK | D3DERR_DEVICELOST | D3DERR_DEVICENOTRESET | D3DERR_other

text \<open>
  What the platform answers during one operation of the device.  Every platform call is
  made at most once per operation, so one answer per call is enough.
\<close>

record platform =
  Direct3DCreate9_result :: "nat option"
  GetAdapterDisplayMode_hr :: HRESULT
  CheckDeviceType_hr :: HRESULT
  CreateDevice_hr :: HRESULT
  CreateDevice_device :: nat
  Reset_hr :: HRESULT
  CreateAdditionalSwapChain_hr :: HRESULT
  CreateAdditionalSwapChain_chain :: nat
  TestCooperativeLevel_result :: cooperative_level
  client_rect :: RECT
  SwapChain_GetBackBuffer_hr :: HRESULT
  LockRect_hr :: HRESULT
  LockRect_pBits :: addr
  LockRect_Pitch :: "32 word"
  surface_bytes :: mem
  UnlockRect_hr :: HRESULT
  Device_GetBackBuffer_hr :: HRESULT
  ColorFill_hr :: HRESULT
  StretchRect_hr :: HRESULT
  Present_hr :: HRESULT
  MFCopyImage_fn :: copy_image
  reserved_byte :: "8 word"

text \<open>
  The fields of \<open>DrawDevice\<close> that its control flow reads (the presentation parameters
  and the interlace mode are only stored), and the log of calls made so far.
\<close>

record DrawDevice =
  mWindow :: nat
  mD3D :: "nat option"
  mDevice :: "nat option"
  mSwapChain :: "nat option"
  mFormat :: "32 word"
  mWidth :: "32 word"
  mHeight :: "32 word"
  mDefaultStride :: "32 word"
  mAspect :: MFRatio
  mDestRect :: RECT
  mRGB32Converter :: "FormatConvertor option"
  calls :: "call list"

definition D3DFMT_UNKNOWN :: "32 word" where
  "D3DFMT_UNKNOWN = 0"

definition DrawDevice_new :: DrawDevice where
  "DrawDevice_new =
     \<lparr> mWindow = 0, mD3D = None, mDevice = None, mSwapChain = None, mFormat = D3DFMT_UNKNOWN,
       mWidth = 0, mHeight = 0, mDefaultStride = 0,
       mAspect = \<lparr> Numerator = 1, Denominator = 1 \<rparr>,
       mDestRect = \<lparr> left = 0, top = 0, right = 0, bottom = 0 \<rparr>,
       mRGB32Converter = None, calls = [] \<rparr>"

text \<open>
  A call of the device either returns, or dereferences a null pointer, or never returns
  (when the conversion it runs does not).
\<close>

datatype 'a outcome = Returns 'a | NullDereference | NeverReturns

definition log :: "call list \<Rightarrow> DrawDevice \<Rightarrow> DrawDevice" where
  "log cs s = s \<lparr> calls := calls s @ cs \<rparr>"

text \<open>
  Modelled from the spec: \<open>SafeRelease\<close> (SafeRelease.h is not among the sources)
  releases the object behind a pointer if there is one; the caller's pointer is then null.
\<close>

definition SafeRelease :: "call \<Rightarrow> nat option \<Rightarrow> DrawDevice \<Rightarrow> DrawDevice" where
  "SafeRelease c p s = (case p of None \<Rightarrow> s | Some h \<Rightarrow> log [c] s)"

definition DestroyDevice :: "DrawDevice \<Rightarrow> DrawDevice" where
  "DestroyDevice s =
     (let s = (SafeRelease Release_SwapChain (mSwapChain s) s) \<lparr> mSwapChain := None \<rparr>;
          s = (SafeRelease Release_Device (mDevice s) s) \<lparr> mDevice := None \<rparr>;
          s = (SafeRelease Release_D3D (mD3D s) s) \<lparr> mD3D := None \<rparr>
      in s)"

definition createDevice :: "platform \<Rightarrow> nat \<Rightarrow> DrawDevice \<Rightarrow> bool \<times> DrawDevice" where
  "createDevice env hwnd s =
     (if mDevice s \<noteq> None then (True, s)
      else let (ok, s) =
                 (if mD3D s = None
                  then let s = (log [Direct3DCreate9] s) \<lparr> mD3D := Direct3DCreate9_result env \<rparr>
                       in (mD3D s \<noteq> None, s)
                  else (True, s))
           in if \<not> ok then (False, s)
              else let s = log [D3D_GetAdapterDisplayMode] s
                   in if FAILED (GetAdapterDisplayMode_hr env) then (False, s)
                      else let s = log [D3D_CheckDeviceType] s
                           in if FAILED (CheckDeviceType_hr env) then (False, s)
                              else let s = log [D3D_CreateDevice] s
                                   in if FAILED (CreateDevice_hr env) then (False, s)
                                      else (True, s \<lparr> mDevice := Some (CreateDevice_device env),
                                                      mWindow := hwnd \<rparr>))"

definition createSwapChains :: "platform \<Rightarrow> DrawDevice \<Rightarrow> (bool \<times> DrawDevice) outcome" where
  "createSwapChains env s =
     (let s = (SafeRelease Release_SwapChain (mSwapChain s) s) \<lparr> mSwapChain := None \<rparr>
      in case mDevice s of
           None \<Rightarrow> NullDereference
         | Some dev \<Rightarrow>
             let s = log [Device_CreateAdditionalSwapChain] s;
                 s = (if FAILED (CreateAdditionalSwapChain_hr env) then s
                      else s \<lparr> mSwapChain := Some (CreateAdditionalSwapChain_chain env) \<rparr>)
             in Returns (CreateAdditionalSwapChain_hr env = 0, s))"

definition UpdateDestinationRect :: "platform \<Rightarrow> DrawDevice \<Rightarrow> DrawDevice" where
  "UpdateDestinationRect env s =
     (let rcSrc = \<lparr> left = 0, top = 0, right = sint (mWidth s), bottom = sint (mHeight s) \<rparr>;
          s = log [GetClientRect] s;
          rcClient = client_rect env;
          rcSrc = CorrectAspectRatio rcSrc (mAspect s)
      in s \<lparr> mDestRect := LetterBoxRect rcSrc rcClient \<rparr>)"

definition resetDevice :: "platform \<Rightarrow> DrawDevice \<Rightarrow> (bool \<times> DrawDevice) outcome" where
  "resetDevice env s =
     (let s = (if mDevice s \<noteq> None
               then let s = log [Device_Reset] s
                    in if FAILED (Reset_hr env) then DestroyDevice s else s
               else s);
          (ok, s) = (if mDevice s = None then createDevice env (mWindow s) s else (True, s))
      in if \<not> ok then Returns (False, s)
         else if mSwapChain s = None \<and> mFormat s \<noteq> D3DFMT_UNKNOWN
              then (case createSwapChains env s of
                      Returns (ok, s) \<Rightarrow>
                        if \<not> ok then Returns (False, s)
                        else Returns (True, UpdateDestinationRect env s)
                    | NullDereference \<Rightarrow> NullDereference
                    | NeverReturns \<Rightarrow> NeverReturns)
              else Returns (True, s))"

definition TestCooperativeLevel :: "platform \<Rightarrow> DrawDevice \<Rightarrow> (bool \<times> DrawDevice) outcome" where
  "TestCooperativeLevel env s =
     (if mDevice s = None then Returns (False, s)
      else let s = log [Device_TestCooperativeLevel] s
           in case TestCooperativeLevel_result env of
                D3D_OK \<Rightarrow> Returns (True, s)
              | D3DERR_DEVICELOST \<Rightarrow> resetDevice env s
              | D3DERR_DEVICENOTRESET \<Rightarrow> resetDevice env s
              | D3DERR_other \<Rightarrow> Returns (False, s))"

text \<open>
  \<open>DrawFrame\<close> after the conversion (from \<open>UnlockRect\<close> on).  The \<open>VideoBufferLock\<close>
  is a local object of \<open>DrawFrame\<close>: its destructor unlocks the buffer on every return
  after its construction.
\<close>

definition DrawFrame_present ::
  "platform \<Rightarrow> VideoBufferLock \<Rightarrow> DrawDevice \<Rightarrow> (bool \<times> DrawDevice) outcome" where
  "DrawFrame_present env buffer s =
     (let s = log [Surface_UnlockRect] s
      in if FAILED (UnlockRect_hr env) then Returns (False, log (snd (unlock buffer)) s)
         else case mDevice s of
                None \<Rightarrow> NullDereference
              | Some dev \<Rightarrow>
                  let s = log [Device_GetBackBuffer] s
                  in if FAILED (Device_GetBackBuffer_hr env)
                     then Returns (False, log (snd (unlock buffer)) s)
                     else let s = log [Device_ColorFill] s
                          in if FAILED (ColorFill_hr env)
                             then Returns (False, log (snd (unlock buffer)) s)
                             else let s = log [Device_StretchRect] s
                                  in if FAILED (StretchRect_hr env)
                                     then Returns (False, log (snd (unlock buffer)) s)
                                     else let s = log [Device_Present] s
                                          in Returns (Present_hr env = 0,
                                                      log (snd (unlock buffer)) s))"

text \<open>
  \<open>DrawFrame\<close> after the health check: lock the swap-chain surface and the buffer, and
  convert.  The value \<open>convert\<close> returns is not looked at.
\<close>

definition DrawFrame_render ::
  "platform \<Rightarrow> media_buffer \<Rightarrow> DrawDevice \<Rightarrow> (bool \<times> DrawDevice) outcome" where
  "DrawFrame_render env pBuffer s =
     (case mSwapChain s of
        None \<Rightarrow> NullDereference
      | Some chain \<Rightarrow>
          let s = log [SwapChain_GetBackBuffer] s
          in if FAILED (SwapChain_GetBackBuffer_hr env) then Returns (False, s)
             else let s = log [Surface_LockRect] s
                  in if FAILED (LockRect_hr env) then Returns (False, s)
                     else let (scanLine, buffer, cs) =
                                LockBuffer pBuffer (mDefaultStride s) (mHeight s)
                                  (VideoBufferLock_new pBuffer);
                              s = log cs s
                          in if scanLine = 0 then Returns (False, log (snd (unlock buffer)) s)
                             else let stride = getStride buffer
                                  in case mRGB32Converter s of
                                       None \<Rightarrow> NullDereference
                                     | Some converter \<Rightarrow>
                                         (case convert converter (MFCopyImage_fn env) (reserved_byte env)
                                                 (surface_bytes env) (LockRect_pBits env)
                                                 (LockRect_Pitch env) (bytes pBuffer) scanLine
                                                 (word_of_int stride) (mWidth s) (mHeight s) of
                                            None \<Rightarrow> NeverReturns
                                          | Some (converted, surface) \<Rightarrow>
                                              DrawFrame_present env buffer
                                                (log [Convert converter converted] s)))"

definition DrawFrame ::
  "platform \<Rightarrow> media_buffer \<Rightarrow> DrawDevice \<Rightarrow> (bool \<times> DrawDevice) outcome" where
  "DrawFrame env pBuffer s =
     (if mRGB32Converter s = None then Returns (False, s)
      else if mDevice s = None \<or> mSwapChain s = None then Returns (True, s)
      else case TestCooperativeLevel env s of
             Returns (healthy, s) \<Rightarrow>
               if \<not> healthy then Returns (False, s) else DrawFrame_render env pBuffer s
           | NullDereference \<Rightarrow> NullDereference
           | NeverReturns \<Rightarrow> NeverReturns)"

section \<open>Resize notification (preview.cpp)\<close>


section \<open>Definitions for stating the properties\<close>

text \<open>
  \<open>read_quad\<close> reads back the four bytes of one destination pixel.  \<open>YUY2_pixel\<close> and
  \<open>NV12_pixel\<close> name the pixel a converter is expected to produce from the source bytes
  of a row.  \<open>studio_rgb\<close> is the colour transform in the specification's own words, to be
  compared with \<open>ConvertYCrCbToRGB\<close>: \<open>clip\<close> saturates to 0..255 and \<open>>> 8\<close> is the
  division by 256 rounding down.
\<close>

definition read_quad :: "mem \<Rightarrow> addr \<Rightarrow> RGBQUAD" where
  "read_quad m a = \<lparr> rgbBlue = m a, rgbGreen = m (a + 1), rgbRed = m (a + 2), rgbReserved = m (a + 3) \<rparr>"

definition YUY2_pixel :: "8 word \<Rightarrow> mem \<Rightarrow> addr \<Rightarrow> int \<Rightarrow> RGBQUAD" where
  "YUY2_pixel resv src row i =
     ConvertYCrCbToRGB resv (uint (src (row + 2 * i))) (uint (src (row + 4 * (i div 2) + 3)))
       (uint (src (row + 4 * (i div 2) + 1)))"

definition NV12_pixel :: "8 word \<Rightarrow> mem \<Rightarrow> addr \<Rightarrow> addr \<Rightarrow> addr \<Rightarrow> int \<Rightarrow> RGBQUAD" where
  "NV12_pixel resv src ly lcr lcb k =
     (ConvertYCrCbToRGB resv (uint (src (ly + k))) (uint (src (lcr + 2 * (k div 2))))
        (uint (src (lcb + 2 * (k div 2))))) \<lparr> rgbReserved := 0 \<rparr>"

definition clip_spec :: "int \<Rightarrow> int" where
  "clip_spec v = max 0 (min 255 v)"

definition studio_rgb :: "int \<Rightarrow> int \<Rightarrow> int \<Rightarrow> int \<times> int \<times> int" where
  "studio_rgb Y Cb Cr =
     (let c = Y - 16; d = Cb - 128; e = Cr - 128
      in (clip_spec ((298 * c + 409 * e + 128) div 2 ^ 8),
          clip_spec ((298 * c - 100 * d - 208 * e + 128) div 2 ^ 8),
          clip_spec ((298 * c + 516 * d + 128) div 2 ^ 8)))"

definition pixel_rgb :: "RGBQUAD \<Rightarrow> int \<times> int \<times> int" where
  "pixel_rgb q = (uint (rgbRed q), uint (rgbGreen q), uint (rgbBlue q))"

definition pixel_at :: "(bool \<times> mem) option \<Rightarrow> addr \<Rightarrow> RGBQUAD option" where
  "pixel_at res a = (case res of None \<Rightarrow> None | Some (ok, d) \<Rightarrow> Some (read_quad d a))"

subsection \<open>Calls and outcomes of the device operations\<close>

text \<open>
  \<open>is_frame_call\<close> tells the calls that lock, convert, draw or present a frame from those
  that manage the device; \<open>recreation_calls\<close> are the calls \<open>resetDevice\<close> may make after
  its \<open>Reset\<close>.

  The other definitions name what the operations are expected to do, in terms of what
  the platform answers.  \<open>release_calls s\<close> are the releases of the objects that exist in
  \<open>s\<close>: swap chain, device, Direct3D object, in this order.  \<open>device_calls env\<close> are the
  calls that create the Direct3D object and the device, up to the first that fails, and
  \<open>device_created env\<close> says that none fails.  \<open>chain_calls env\<close> are the creation of the
  swap chain and, when that returns \<open>S_OK\<close>, the query of the client area for the new
  destination rectangle, which is \<open>fitted_rect env s\<close>: the frame of \<open>s\<close>, corrected for
  its pixel aspect ratio and letterboxed into the client area.

  For one frame: \<open>locked_scanline\<close> and \<open>locked_stride\<close> are the pointer and the stride
  the buffer lock hands to the conversion (those of \<open>Lock2D\<close> where the buffer has 2-D
  access, else the pointer of \<open>Lock\<close> and the default stride); \<open>frame_succeeds\<close> says
  that every call of the frame that the code checks succeeds (the value the conversion
  returns is not among them); \<open>frame_calls\<close> are the calls of a frame that goes through:
  lock the surface and the buffer, convert, unlock the surface, fill, stretch, present,
  unlock the buffer.
\<close>

fun is_frame_call :: "call \<Rightarrow> bool" where
  "is_frame_call SwapChain_GetBackBuffer = True"
| "is_frame_call Surface_LockRect = True"
| "is_frame_call Surface_UnlockRect = True"
| "is_frame_call Buffer_Lock2D = True"
| "is_frame_call Buffer_Lock = True"
| "is_frame_call Buffer_Unlock2D = True"
| "is_frame_call Buffer_Unlock = True"
| "is_frame_call (Convert c b) = True"
| "is_frame_call Device_GetBackBuffer = True"
| "is_frame_call Device_ColorFill = True"
| "is_frame_call Device_StretchRect = True"
| "is_frame_call Device_Present = True"
| "is_frame_call _ = False"

definition recreation_calls :: "call set" where
  "recreation_calls =
     {Release_SwapChain, Release_Device, Release_D3D, Direct3DCreate9, D3D_GetAdapterDisplayMode,
      D3D_CheckDeviceType, D3D_CreateDevice, Device_CreateAdditionalSwapChain, GetClientRect}"

definition release_calls :: "DrawDevice \<Rightarrow> call list" where
  "release_calls s =
     (if mSwapChain s = None then [] else [Release_SwapChain])
     @ (if mDevice s = None then [] else [Release_Device])
     @ (if mD3D s = None then [] else [Release_D3D])"

definition device_created :: "platform \<Rightarrow> bool" where
  "device_created env \<longleftrightarrow>
     Direct3DCreate9_result env \<noteq> None \<and> \<not> FAILED (GetAdapterDisplayMode_hr env)
     \<and> \<not> FAILED (CheckDeviceType_hr env) \<and> \<not> FAILED (CreateDevice_hr env)"

definition device_calls :: "platform \<Rightarrow> call list" where
  "device_calls env =
     Direct3DCreate9 #
     (if Direct3DCreate9_result env = None then []
      else D3D_GetAdapterDisplayMode #
           (if FAILED (GetAdapterDisplayMode_hr env) then []
            else D3D_CheckDeviceType #
                 (if FAILED (CheckDeviceType_hr env) then [] else [D3D_CreateDevice])))"

definition chain_calls :: "platform \<Rightarrow> call list" where
  "chain_calls env =
     Device_CreateAdditionalSwapChain #
     (if CreateAdditionalSwapChain_hr env = 0 then [GetClientRect] else [])"

definition fitted_rect :: "platform \<Rightarrow> DrawDevice \<Rightarrow> RECT" where
  "fitted_rect env s =
     LetterBoxRect
       (CorrectAspectRatio \<lparr> left = 0, top = 0, right = sint (mWidth s), bottom = sint (mHeight s) \<rparr>
          (mAspect s))
       (client_rect env)"

definition locked_scanline :: "media_buffer \<Rightarrow> addr" where
  "locked_scanline pBuffer =
     (if supports_2D pBuffer then Lock2D_scanline pBuffer else Lock_data pBuffer)"

definition locked_stride :: "media_buffer \<Rightarrow> DrawDevice \<Rightarrow> 32 word" where
  "locked_stride pBuffer s =
     (if supports_2D pBuffer then Lock2D_pitch pBuffer else mDefaultStride s)"

definition frame_succeeds :: "platform \<Rightarrow> media_buffer \<Rightarrow> bool" where
  "frame_succeeds env pBuffer \<longleftrightarrow>
     \<not> FAILED (SwapChain_GetBackBuffer_hr env) \<and> \<not> FAILED (LockRect_hr env)
     \<and> \<not> FAILED (if supports_2D pBuffer then Lock2D_hr pBuffer else Lock_hr pBuffer)
     \<and> locked_scanline pBuffer \<noteq> 0
     \<and> \<not> FAILED (UnlockRect_hr env) \<and> \<not> FAILED (Device_GetBackBuffer_hr env)
     \<and> \<not> FAILED (ColorFill_hr env) \<and> \<not> FAILED (StretchRect_hr env)
     \<and> Present_hr env = 0"

definition frame_calls :: "media_buffer \<Rightarrow> FormatConvertor \<Rightarrow> bool \<Rightarrow> call list" where
  "frame_calls pBuffer converter converted =
     [SwapChain_GetBackBuffer, Surface_LockRect,
      if supports_2D pBuffer then Buffer_Lock2D else Buffer_Lock,
      Convert converter converted,
      Surface_UnlockRect, Device_GetBackBuffer, Device_ColorFill, Device_StretchRect, Device_Present,
      if supports_2D pBuffer then Buffer_Unlock2D else Buffer_Unlock]"

subsection \<open>Concrete buffers, platforms and devices\<close>

text \<open>
  \<open>bytes_at base bs\<close> is a store holding the bytes \<open>bs\<close> from address \<open>base\<close> on and
  zero elsewhere.  \<open>copy_reporting hr\<close> stands in for \<open>MFCopyImage\<close> where a concrete
  bulk-copy primitive is needed: it reports \<open>hr\<close> and copies nothing.  \<open>linear_buffer\<close>
  is a media buffer without 2-D access, \<open>healthy_platform\<close> answers every call with
  success, \<open>ready_device\<close> is a device with a converter, a Direct3D device and a swap chain
  for a 2 x 1 frame of 32-bit RGB.  \<open>lost_platform\<close> reports a lost device whose \<open>Reset\<close>
  fails, and \<open>recreated_device\<close> is \<open>ready_device\<close> after its Direct3D objects have been
  released and created anew.
\<close>

definition bytes_at :: "addr \<Rightarrow> 8 word list \<Rightarrow> mem" where
  "bytes_at base bs = (\<lambda>a. if base \<le> a \<and> a < base + int (length bs) then bs ! nat (a - base) else 0)"

definition copy_reporting :: "HRESULT \<Rightarrow> copy_image" where
  "copy_reporting hr = (\<lambda>dst destination destStride src source srcStride widthInBytes lines. (hr, dst))"

definition linear_buffer :: media_buffer where
  "linear_buffer =
     \<lparr> supports_2D = False, Lock2D_hr = 0x80004002, Lock2D_scanline = 0, Lock2D_pitch = 0,
       Lock_hr = 0, Lock_data = 4096, bytes = bytes_at 4096 [10, 20, 30, 255, 40, 50, 60, 255] \<rparr>"

definition healthy_platform :: platform where
  "healthy_platform =
     \<lparr> Direct3DCreate9_result = Some 10, GetAdapterDisplayMode_hr = 0, CheckDeviceType_hr = 0,
       CreateDevice_hr = 0, CreateDevice_device = 11, Reset_hr = 0,
       CreateAdditionalSwapChain_hr = 0, CreateAdditionalSwapChain_chain = 12,
       TestCooperativeLevel_result = D3D_OK,
       client_rect = \<lparr> left = 0, top = 0, right = 1600, bottom = 900 \<rparr>,
       SwapChain_GetBackBuffer_hr = 0, LockRect_hr = 0, LockRect_pBits = 8192, LockRect_Pitch = 8,
       surface_bytes = bytes_at 8192 [], UnlockRect_hr = 0, Device_GetBackBuffer_hr = 0,
       ColorFill_hr = 0, StretchRect_hr = 0, Present_hr = 0,
       MFCopyImage_fn = copy_reporting 0, reserved_byte = 0 \<rparr>"

definition ready_device :: DrawDevice where
  "ready_device =
     \<lparr> mWindow = 1, mD3D = Some 1, mDevice = Some 2, mSwapChain = Some 3, mFormat = 22,
       mWidth = 2, mHeight = 1, mDefaultStride = 8,
       mAspect = \<lparr> Numerator = 1, Denominator = 1 \<rparr>,
       mDestRect = \<lparr> left = 0, top = 0, right = 1600, bottom = 800 \<rparr>,
       mRGB32Converter = Some FormatConvertorRGB32, calls = [] \<rparr>"

definition lost_platform :: platform where
  "lost_platform = healthy_platform \<lparr> TestCooperativeLevel_result := D3DERR_DEVICELOST,
                                       Reset_hr := 0x88760868 \<rparr>"


section \<open>Properties\<close>

subsection \<open>Properties of the geometry functions\<close>

lemma MulDiv_exact:
  assumes c: "0 < c" and n: "0 \<le> n" "n \<le> 2147483647" and eq: "a * b = n * c"
  shows "MulDiv a b c = n"
proof -
  have half: "(c div 2) div c = 0" using c by (simp add: div_pos_pos_trivial)
  have "(\<bar>n * c\<bar> + c div 2) div c = (c div 2 + n * c) div c"
    using c n by (simp add: abs_mult add.commute)
  also have "\<dots> = n" using c half by simp
  finally have q: "(\<bar>n * c\<bar> + c div 2) div c = n" .
  have s: "sgn (n * c) * n = n"
    using c n by (cases "n = 0") (simp_all add: sgn_mult)
  show ?thesis
    using c n by (simp add: MulDiv_def Let_def eq q s)
qed

lemma ratio_4_3: "3 * (w::int) = 4 * h \<Longrightarrow> \<exists>m. w = 4 * m \<and> h = 3 * m"
  by presburger

lemma ratio_16_9: "9 * (w::int) = 16 * h \<Longrightarrow> \<exists>k. w = 16 * k \<and> h = 9 * k"
  by presburger

lemma int32_id: "- 2147483648 \<le> k \<Longrightarrow> k \<le> 2147483647 \<Longrightarrow> int32 k = k"
  by (simp add: int32_def)

text \<open>
  Where a width does not fit a \<open>LONG\<close> the code measures the wrapped value: a source
  2400000000 wide and 1800000000 high counts as -1894967296 wide, and the rectangle
  computed is not inside the destination.
\<close>

lemma LetterBoxRect_wrapped_width:
  "LetterBoxRect \<lparr> left = - 1200000000, top = 0, right = 1200000000, bottom = 1800000000 \<rparr>
                 \<lparr> left = 0, top = 0, right = 1600, bottom = 900 \<rparr>
     = \<lparr> left = 1273, top = 0, right = 326, bottom = 900 \<rparr>"
  by (simp add: LetterBoxRect_def Width_def Height_def Let_def) (simp add: int32_def MulDiv_def cdiv_def)

text \<open>
  C5, as stated: a 4:3 source letterboxed into a 16:9 destination of width \<open>W\<close> would get
  an inner rectangle of width \<open>W\<close> and height \<open>W*3/4\<close>.  A 640 x 480 source in a
  1600 x 900 destination is a concrete 4:3-in-16:9 case; the inner rectangle is
  1200 x 900 there, so the stated width and height are both wrong.
\<close>

theorem LetterBoxRect_4_3_full_width_counterexample:
  "\<not> (Width (LetterBoxRect \<lparr> left = 0, top = 0, right = 640, bottom = 480 \<rparr>
                             \<lparr> left = 0, top = 0, right = 1600, bottom = 900 \<rparr>) = 1600
      \<and> Height (LetterBoxRect \<lparr> left = 0, top = 0, right = 640, bottom = 480 \<rparr>
                              \<lparr> left = 0, top = 0, right = 1600, bottom = 900 \<rparr>) = 1600 * 3 div 4)"
  by (simp add: LetterBoxRect_def Width_def Height_def Let_def) (simp add: int32_def MulDiv_def cdiv_def)

text \<open>
  C5, amended: a 4:3 source is narrower than a 16:9 destination, so the fit is
  height-constrained (pillar box).  Take two rectangles whose fields are \<open>LONG\<close>s and
  whose widths fit a \<open>LONG\<close> too (so that no subtraction wraps): a source of 4:3 shape
  and a destination of width \<open>W\<close> and height \<open>9W/16\<close>.  The inner rectangle keeps the
  destination's full height, has width \<open>W*3/4\<close>, touches the destination's top and bottom
  edges, and is centred horizontally with equal left and right margins; its fields are
  \<open>LONG\<close>s again, and the code's own \<open>Width\<close> and \<open>Height\<close> measure it as \<open>W*3/4\<close> by \<open>9W/16\<close>.
\<close>

theorem LetterBoxRect_4_3_in_16_9:
  assumes valid: "valid_RECT rcSrc" "valid_RECT rcDst"
    and src: "3 * (right rcSrc - left rcSrc) = 4 * (bottom rcSrc - top rcSrc)"
             "0 < bottom rcSrc - top rcSrc" "right rcSrc - left rcSrc \<le> 2147483647"
    and dst: "9 * (right rcDst - left rcDst) = 16 * (bottom rcDst - top rcDst)"
             "0 < right rcDst - left rcDst" "right rcDst - left rcDst \<le> 2147483647"
  shows "bottom (LetterBoxRect rcSrc rcDst) - top (LetterBoxRect rcSrc rcDst) = bottom rcDst - top rcDst
       \<and> 4 * (right (LetterBoxRect rcSrc rcDst) - left (LetterBoxRect rcSrc rcDst))
           = 3 * (right rcDst - left rcDst)
       \<and> top (LetterBoxRect rcSrc rcDst) = top rcDst
       \<and> bottom (LetterBoxRect rcSrc rcDst) = bottom rcDst
       \<and> left (LetterBoxRect rcSrc rcDst) - left rcDst = right rcDst - right (LetterBoxRect rcSrc rcDst)
       \<and> valid_RECT (LetterBoxRect rcSrc rcDst)
       \<and> Height (LetterBoxRect rcSrc rcDst) = Height rcDst
       \<and> 4 * Width (LetterBoxRect rcSrc rcDst) = 3 * Width rcDst"
proof -
  obtain m where m: "right rcSrc - left rcSrc = 4 * m" "bottom rcSrc - top rcSrc = 3 * m"
    using ratio_4_3 [OF src(1)] by blast
  obtain k where k: "right rcDst - left rcDst = 16 * k" "bottom rcDst - top rcDst = 9 * k"
    using ratio_16_9 [OF dst(1)] by blast
  have mpos: "0 < m" and kpos: "0 < k" using src(2) dst(2) m k by simp_all
  have mr: "4 * m \<le> 2147483647" using src(3) m by simp
  have kr: "16 * k \<le> 2147483647" using dst(3) k by simp
  have ws: "Width rcSrc = 4 * m" and hs: "Height rcSrc = 3 * m"
    using mpos mr by (simp_all add: Width_def Height_def m int32_id)
  have wd: "Width rcDst = 16 * k" and hd: "Height rcDst = 9 * k"
    using kpos kr by (simp_all add: Width_def Height_def k int32_id)
  have md1: "MulDiv (4 * m) (9 * k) (3 * m) = 12 * k"
    by (rule MulDiv_exact) (use mpos kpos kr in simp_all)
  have md2: "MulDiv (9 * k) (4 * m) (3 * m) = 12 * k"
    by (rule MulDiv_exact) (use mpos kpos kr in simp_all)
  have cd: "cdiv (4 * k) 2 = 2 * k" using kpos by (simp add: cdiv_def)
  have cd0: "cdiv 0 2 = 0" by (simp add: cdiv_def)
  have i4: "int32 (4 * k) = 4 * k" using kpos kr by (simp add: int32_id)
  have i0: "int32 0 = 0" by (simp add: int32_def)
  have rd: "right rcDst = left rcDst + 16 * k" and bd: "bottom rcDst = top rcDst + 9 * k"
    using k by simp_all
  have fields: "- 2147483648 \<le> left rcDst" "left rcDst + 16 * k \<le> 2147483647"
               "- 2147483648 \<le> top rcDst" "top rcDst + 9 * k \<le> 2147483647"
    using valid(2) rd bd by (simp_all add: valid_RECT_def is_LONG_def)
  have l: "int32 (left rcDst + 2 * k) = left rcDst + 2 * k"
    using fields kpos by (intro int32_id) simp_all
  have r14: "int32 (left rcDst + 14 * k) = left rcDst + 14 * k"
    using fields kpos by (intro int32_id) simp_all
  have r14c: "int32 (14 * k + left rcDst) = left rcDst + 14 * k"
    using r14 by (simp only: add.commute)
  have "left rcDst + 2 * k + 12 * k = left rcDst + 14 * k" by simp
  then have r: "int32 (left rcDst + 2 * k + 12 * k) = left rcDst + 14 * k"
    using r14 by (simp only:)
  have t: "int32 (top rcDst) = top rcDst"
    using fields kpos by (intro int32_id) simp_all
  have b: "int32 (top rcDst + 9 * k) = top rcDst + 9 * k"
    using fields kpos by (intro int32_id) simp_all
  have lb: "LetterBoxRect rcSrc rcDst =
      \<lparr> left = left rcDst + 2 * k, top = top rcDst,
        right = left rcDst + 14 * k, bottom = top rcDst + 9 * k \<rparr>"
    using kpos
    by (simp add: LetterBoxRect_def Let_def ws hs wd hd md1 md2 i4 i0 cd cd0 l r r14 r14c t b)
  have wl: "int32 (12 * k) = 12 * k" and hl: "int32 (9 * k) = 9 * k"
    and wl16: "int32 (16 * k) = 16 * k"
    using kpos kr by (simp_all add: int32_id)
  show ?thesis
    using fields kpos
    by (simp add: lb rd bd Width_def Height_def wl hl wl16 valid_RECT_def is_LONG_def)
qed

theorem LetterBoxRect_4_3_in_16_9_witness:
  "LetterBoxRect \<lparr> left = 0, top = 0, right = 640, bottom = 480 \<rparr>
                 \<lparr> left = 10, top = 20, right = 1610, bottom = 920 \<rparr>
     = \<lparr> left = 210, top = 20, right = 1410, bottom = 920 \<rparr>
   \<and> bottom (LetterBoxRect \<lparr> left = 0, top = 0, right = 640, bottom = 480 \<rparr>
                           \<lparr> left = 10, top = 20, right = 1610, bottom = 920 \<rparr>)
     - top (LetterBoxRect \<lparr> left = 0, top = 0, right = 640, bottom = 480 \<rparr>
                          \<lparr> left = 10, top = 20, right = 1610, bottom = 920 \<rparr>) = 900
   \<and> right (LetterBoxRect \<lparr> left = 0, top = 0, right = 640, bottom = 480 \<rparr>
                          \<lparr> left = 10, top = 20, right = 1610, bottom = 920 \<rparr>)
     - left (LetterBoxRect \<lparr> left = 0, top = 0, right = 640, bottom = 480 \<rparr>
                           \<lparr> left = 10, top = 20, right = 1610, bottom = 920 \<rparr>) = 1200
   \<and> left (LetterBoxRect \<lparr> left = 0, top = 0, right = 640, bottom = 480 \<rparr>
                         \<lparr> left = 10, top = 20, right = 1610, bottom = 920 \<rparr>) - 10
     = 1610 - right (LetterBoxRect \<lparr> left = 0, top = 0, right = 640, bottom = 480 \<rparr>
                                   \<lparr> left = 10, top = 20, right = 1610, bottom = 920 \<rparr>)"
proof -
  have v: "valid_RECT \<lparr> left = 0, top = 0, right = 640, bottom = 480 \<rparr>"
          "valid_RECT \<lparr> left = 10, top = 20, right = 1610, bottom = 920 \<rparr>"
    by (simp_all add: valid_RECT_def is_LONG_def)
  have e: "LetterBoxRect \<lparr> left = 0, top = 0, right = 640, bottom = 480 \<rparr>
                 \<lparr> left = 10, top = 20, right = 1610, bottom = 920 \<rparr>
     = \<lparr> left = 210, top = 20, right = 1410, bottom = 920 \<rparr>"
    by (simp add: LetterBoxRect_def Width_def Height_def Let_def) (simp add: int32_def MulDiv_def cdiv_def)
  show ?thesis
    using LetterBoxRect_4_3_in_16_9 [OF v] e by simp
qed

text \<open>
  C6, as stated: a 720 x 486 rectangle with pixel aspect ratio 10:9 would be corrected to
  720 x 540.  With numerator 10 above denominator 9 the pixels count as wide, and the
  width is stretched instead: the result is 800 x 486.
\<close>

theorem CorrectAspectRatio_10_9_counterexample:
  "\<not> (Width (CorrectAspectRatio \<lparr> left = 0, top = 0, right = 720, bottom = 486 \<rparr>
                                  \<lparr> Numerator = 10, Denominator = 9 \<rparr>) = 720
      \<and> Height (CorrectAspectRatio \<lparr> left = 0, top = 0, right = 720, bottom = 486 \<rparr>
                                   \<lparr> Numerator = 10, Denominator = 9 \<rparr>) = 540)"
  by (simp add: CorrectAspectRatio_def Width_def Height_def Let_def) (simp add: int32_def MulDiv_def)

text \<open>
  C6, amended: the ratio that stretches the height by 10/9 is 9:10 (tall pixels), as the
  comment above the function says.  Every 720 x 486 rectangle with pixel aspect ratio 9:10
  is corrected to the rectangle at the origin of width 720 and height 540; with ratio 10:9
  the same rectangle becomes 800 wide and stays 486 high.
\<close>

theorem CorrectAspectRatio_720_486:
  assumes "Width src = 720" and "Height src = 486"
  shows "CorrectAspectRatio src \<lparr> Numerator = 9, Denominator = 10 \<rparr>
           = \<lparr> left = 0, top = 0, right = 720, bottom = 540 \<rparr>
       \<and> CorrectAspectRatio src \<lparr> Numerator = 10, Denominator = 9 \<rparr>
           = \<lparr> left = 0, top = 0, right = 800, bottom = 486 \<rparr>"
  using assms by (simp add: CorrectAspectRatio_def MulDiv_def Width_def Height_def Let_def)

theorem CorrectAspectRatio_720_486_witness:
  "CorrectAspectRatio \<lparr> left = 5, top = 7, right = 725, bottom = 493 \<rparr> \<lparr> Numerator = 9, Denominator = 10 \<rparr>
           = \<lparr> left = 0, top = 0, right = 720, bottom = 540 \<rparr>
   \<and> CorrectAspectRatio \<lparr> left = 5, top = 7, right = 725, bottom = 493 \<rparr> \<lparr> Numerator = 10, Denominator = 9 \<rparr>
           = \<lparr> left = 0, top = 0, right = 800, bottom = 486 \<rparr>"
  using CorrectAspectRatio_720_486 [of "\<lparr> left = 5, top = 7, right = 725, bottom = 493 \<rparr>"]
  by (simp add: Width_def Height_def int32_def)

subsection \<open>Properties of the converters\<close>

lemma ff16: "(0xff :: 16 word) = mask 8"
  by (simp add: mask_eq_exp_minus_1)

lemma LOBYTE_read16 [simp]: "LOBYTE (read16 m a) = m a"
  unfolding LOBYTE_def read16_def ff16
  by (rule bit_word_eqI) (auto simp: bit_simps dest: bit_imp_le_length)

lemma HIBYTE_read16 [simp]: "HIBYTE (read16 m a) = m (a + 1)"
  unfolding HIBYTE_def read16_def ff16
  by (rule bit_word_eqI) (auto simp: bit_simps dest: bit_imp_le_length)

lemma read_quad_write_quad_same: "read_quad (write_quad m a q) a = q"
  by (simp add: read_quad_def write_quad_def)

lemma write_quad_other: "c < a \<or> a + 4 \<le> c \<Longrightarrow> write_quad m a q c = m c"
  by (auto simp: write_quad_def)

lemma read_quad_write_quad_other:
  "b + 4 \<le> a \<or> a + 4 \<le> b \<Longrightarrow> read_quad (write_quad m a q) b = read_quad m b"
  by (auto simp: read_quad_def write_quad_def)

lemma read_quad_eqI:
  "(\<And>c. a \<le> c \<Longrightarrow> c < a + 4 \<Longrightarrow> m c = m' c) \<Longrightarrow> read_quad m a = read_quad m' a"
  by (simp add: read_quad_def)

lemma uint_inc_below:
  assumes "(x :: 32 word) < w"
  shows "uint (x + 1) = uint x + 1"
proof -
  have "uint x < uint w" using assms by (simp add: word_less_def)
  moreover have "uint w < 2 ^ 32" using uint_lt2p [of w] by simp
  ultimately have "uint x + uint (1 :: 32 word) < 2 ^ LENGTH(32)" by simp
  then show ?thesis by (simp add: uint_add_lem [THEN iffD1])
qed

lemma uint_add2:
  assumes "uint (x :: 32 word) + 2 < 2 ^ 32"
  shows "uint (x + 2) = uint x + 2"
proof -
  have "uint x + uint (2 :: 32 word) < 2 ^ LENGTH(32)" using assms by simp
  then show ?thesis by (simp add: uint_add_lem [THEN iffD1])
qed

lemma YUY2_row_step:
  assumes "x < width"
  shows "YUY2_row resv src source destination width x dst =
         YUY2_row resv src source destination width (x + 2)
           (write_quad
              (write_quad dst (destination + 4 * uint x)
                 (ConvertYCrCbToRGB resv (uint (src (source + 2 * uint x)))
                    (uint (src (source + 2 * uint x + 3))) (uint (src (source + 2 * uint x + 1)))))
              (destination + 4 * uint x + 4)
              (ConvertYCrCbToRGB resv (uint (src (source + 2 * uint x + 2)))
                 (uint (src (source + 2 * uint x + 3))) (uint (src (source + 2 * uint x + 1)))))"
proof -
  have u1: "uint (x + 1) = uint x + 1" by (rule uint_inc_below [OF assms])
  show ?thesis
    using assms by (subst YUY2_row.simps) (simp add: Let_def u1 ring_distribs add.assoc)
qed

lemma YUY2_row_stop:
  "\<not> x < width \<Longrightarrow> YUY2_row resv src source destination width x dst = Some dst"
  by (subst YUY2_row.simps) simp

lemma YUY2_row_correct:
  fixes width :: "32 word"
  assumes ew: "even (uint width)"
  shows "even (uint x) \<Longrightarrow>
         \<exists>d. YUY2_row resv src source destination width x dst = Some d
            \<and> (\<forall>i. uint x \<le> i \<and> i < uint width \<longrightarrow>
                   read_quad d (destination + 4 * i) = YUY2_pixel resv src source i)
            \<and> (\<forall>a. a < destination + 4 * uint x \<or> destination + 4 * uint width \<le> a \<longrightarrow> d a = dst a)"
proof (induction "nat (uint width - uint x)" arbitrary: x dst rule: less_induct)
  case less
  show ?case
  proof (cases "x < width")
    case False
    then have "\<not> uint x < uint width" by (simp add: word_less_def)
    then show ?thesis using False by (auto simp: YUY2_row_stop)
  next
    case True
    define p0 where "p0 = ConvertYCrCbToRGB resv (uint (src (source + 2 * uint x)))
                    (uint (src (source + 2 * uint x + 3))) (uint (src (source + 2 * uint x + 1)))"
    define p1 where "p1 = ConvertYCrCbToRGB resv (uint (src (source + 2 * uint x + 2)))
                 (uint (src (source + 2 * uint x + 3))) (uint (src (source + 2 * uint x + 1)))"
    define dst1 where "dst1 = write_quad dst (destination + 4 * uint x) p0"
    define dst2 where "dst2 = write_quad dst1 (destination + 4 * uint x + 4) p1"
    have lt: "uint x < uint width" using True by (simp add: word_less_def)
    have le2: "uint x + 2 \<le> uint width" using lt ew less.prems by presburger
    have bound: "uint x + 2 < 2 ^ 32" using le2 uint_lt2p [of width] by simp
    have u2: "uint (x + 2) = uint x + 2" by (rule uint_add2 [OF bound])
    have ev2: "even (uint (x + 2))" using less.prems by (simp add: u2)
    have meas: "nat (uint width - uint (x + 2)) < nat (uint width - uint x)"
      using lt by (simp add: u2)
    have step: "YUY2_row resv src source destination width x dst =
                YUY2_row resv src source destination width (x + 2) dst2"
      unfolding dst2_def dst1_def p0_def p1_def by (rule YUY2_row_step [OF True])
    from less.hyps [OF meas ev2, of dst2] obtain d where
      d: "YUY2_row resv src source destination width (x + 2) dst2 = Some d"
      and dpix: "\<And>i. uint x + 2 \<le> i \<Longrightarrow> i < uint width \<Longrightarrow>
                   read_quad d (destination + 4 * i) = YUY2_pixel resv src source i"
      and dframe: "\<And>a. a < destination + 4 * (uint x + 2) \<or> destination + 4 * uint width \<le> a \<Longrightarrow> d a = dst2 a"
      unfolding u2 by blast
    have h0: "4 * (uint x div 2) = 2 * uint x" using less.prems by presburger
    have h1: "4 * ((uint x + 1) div 2) = 2 * uint x" using less.prems by presburger
    have pix0: "read_quad d (destination + 4 * uint x) = YUY2_pixel resv src source (uint x)"
    proof -
      have "read_quad d (destination + 4 * uint x) = read_quad dst2 (destination + 4 * uint x)"
        by (rule read_quad_eqI) (rule dframe, simp)
      also have "\<dots> = read_quad dst1 (destination + 4 * uint x)"
        unfolding dst2_def by (rule read_quad_write_quad_other) simp
      also have "\<dots> = p0" unfolding dst1_def by (rule read_quad_write_quad_same)
      also have "\<dots> = YUY2_pixel resv src source (uint x)"
        by (simp add: p0_def YUY2_pixel_def h0)
      finally show ?thesis .
    qed
    have pix1: "read_quad d (destination + 4 * (uint x + 1)) = YUY2_pixel resv src source (uint x + 1)"
    proof -
      have "read_quad d (destination + 4 * (uint x + 1)) = read_quad dst2 (destination + 4 * (uint x + 1))"
        by (rule read_quad_eqI) (rule dframe, simp)
      also have "\<dots> = p1" unfolding dst2_def by (simp add: algebra_simps read_quad_write_quad_same)
      also have "\<dots> = YUY2_pixel resv src source (uint x + 1)"
        by (simp add: p1_def YUY2_pixel_def h1 ring_distribs add.assoc)
      finally show ?thesis .
    qed
    have pix: "read_quad d (destination + 4 * i) = YUY2_pixel resv src source i"
      if "uint x \<le> i" "i < uint width" for i
    proof -
      have "i = uint x \<or> i = uint x + 1 \<or> uint x + 2 \<le> i" using that by linarith
      then show ?thesis using pix0 pix1 dpix that by auto
    qed
    have frame: "d a = dst a" if "a < destination + 4 * uint x \<or> destination + 4 * uint width \<le> a" for a
    proof -
      have "d a = dst2 a" using that by (intro dframe) arith
      also have "\<dots> = dst1 a" unfolding dst2_def using that le2 by (intro write_quad_other) arith
      also have "\<dots> = dst a" unfolding dst1_def using that le2 by (intro write_quad_other) arith
      finally show ?thesis .
    qed
    show ?thesis using step d pix frame by auto
  qed
qed

lemma YUY2_rows_correct:
  assumes ew: "even (uint width)" and ds: "4 * uint width \<le> uint destStride"
  shows "\<exists>d. YUY2_rows resv src source srcStride destination destStride width height y dst = Some d
            \<and> (\<forall>r i. 0 \<le> r \<and> r < uint height - uint y \<and> 0 \<le> i \<and> i < uint width \<longrightarrow>
                   read_quad d (destination + r * uint destStride + 4 * i)
                     = YUY2_pixel resv src (source + r * uint srcStride) i)
            \<and> (\<forall>a. a < destination \<longrightarrow> d a = dst a)"
  using assms
proof (induction resv src source srcStride destination destStride width height y dst
       rule: YUY2_rows.induct)
  case (1 resv src source srcStride destination destStride width height y dst)
  show ?case
  proof (cases "y < height")
    case False
    then have "\<not> uint y < uint height" by (simp add: word_less_def)
    then show ?thesis using False by (auto simp: YUY2_rows.simps)
  next
    case True
    have lt: "uint y < uint height" using True by (simp add: word_less_def)
    have u1: "uint (y + 1) = uint y + 1" by (rule uint_inc_below [OF True])
    obtain d0 where d0: "YUY2_row resv src source destination width 0 dst = Some d0"
      and d0pix: "\<And>i. 0 \<le> i \<Longrightarrow> i < uint width \<Longrightarrow>
                    read_quad d0 (destination + 4 * i) = YUY2_pixel resv src source i"
      and d0frame: "\<And>a. a < destination \<or> destination + 4 * uint width \<le> a \<Longrightarrow> d0 a = dst a"
      using YUY2_row_correct [OF "1.prems"(1), of 0 resv src source destination dst] by auto
    from "1.IH" [OF True d0 "1.prems"] obtain d where
      d: "YUY2_rows resv src (source + uint srcStride) srcStride (destination + uint destStride)
            destStride width height (y + 1) d0 = Some d"
      and dpix: "\<And>r i. 0 \<le> r \<Longrightarrow> r < uint height - (uint y + 1) \<Longrightarrow> 0 \<le> i \<Longrightarrow> i < uint width \<Longrightarrow>
                   read_quad d (destination + uint destStride + r * uint destStride + 4 * i)
                     = YUY2_pixel resv src (source + uint srcStride + r * uint srcStride) i"
      and dframe: "\<And>a. a < destination + uint destStride \<Longrightarrow> d a = d0 a"
      unfolding u1 by blast
    have res: "YUY2_rows resv src source srcStride destination destStride width height y dst = Some d"
      using True d0 d by (subst YUY2_rows.simps) simp
    have pix: "read_quad d (destination + r * uint destStride + 4 * i)
                 = YUY2_pixel resv src (source + r * uint srcStride) i"
      if r: "0 \<le> r" "r < uint height - uint y" and i: "0 \<le> i" "i < uint width" for r i
    proof (cases "r = 0")
      case True
      have "read_quad d (destination + 4 * i) = read_quad d0 (destination + 4 * i)"
        by (rule read_quad_eqI) (rule dframe, use i "1.prems"(2) in linarith)
      then show ?thesis using True d0pix [OF i] by simp
    next
      case False
      then have r': "0 \<le> r - 1" "r - 1 < uint height - (uint y + 1)" using r by simp_all
      have a1: "destination + uint destStride + (r - 1) * uint destStride + 4 * i
                  = destination + r * uint destStride + 4 * i" by (simp add: algebra_simps)
      have a2: "source + uint srcStride + (r - 1) * uint srcStride = source + r * uint srcStride"
        by (simp add: algebra_simps)
      show ?thesis using dpix [OF r' i] unfolding a1 a2 .
    qed
    have frame: "d a = dst a" if "a < destination" for a
    proof -
      have "0 \<le> uint destStride" by simp
      then have "d a = d0 a" using that by (intro dframe) linarith
      then show ?thesis using d0frame [of a] that by simp
    qed
    show ?thesis using res pix frame by auto
  qed
qed

lemma YUY2_convert_pixels:
  assumes "even (uint width)" and "4 * uint width \<le> uint destStride"
  shows "\<exists>d. FormatConvertorYUY2_convert resv dst destination destStride src source srcStride width height
               = Some (True, d)
            \<and> (\<forall>r i. 0 \<le> r \<and> r < uint height \<and> 0 \<le> i \<and> i < uint width \<longrightarrow>
                   read_quad d (destination + r * uint destStride + 4 * i)
                     = YUY2_pixel resv src (source + r * uint srcStride) i)"
proof -
  obtain d where "YUY2_rows resv src source srcStride destination destStride width height 0 dst = Some d"
    and "\<And>r i. 0 \<le> r \<and> r < uint height - uint (0 :: 32 word) \<and> 0 \<le> i \<and> i < uint width \<Longrightarrow>
                   read_quad d (destination + r * uint destStride + 4 * i)
                     = YUY2_pixel resv src (source + r * uint srcStride) i"
    using YUY2_rows_correct [OF assms, of resv src source srcStride destination height 0 dst] by blast
  then show ?thesis by (auto simp: FormatConvertorYUY2_convert_def)
qed

lemma NV12_row_step:
  assumes "x < width"
  shows "NV12_row resv src ly1 ly2 lcr lcb l1 l2 width x dst =
         NV12_row resv src (ly1 + 2) (ly2 + 2) (lcr + 2) (lcb + 2) (l1 + 8) (l2 + 8) width (x + 2)
           (write_quad
             (write_quad
               (write_quad
                 (write_quad dst l1 (NV12_pixel resv src ly1 lcr lcb 0))
                 (l1 + 4) (NV12_pixel resv src ly1 lcr lcb 1))
               l2 (NV12_pixel resv src ly2 lcr lcb 0))
             (l2 + 4) (NV12_pixel resv src ly2 lcr lcb 1))"
  using assms by (subst NV12_row.simps) (simp add: Let_def NV12_pixel_def)

lemma NV12_row_stop:
  "\<not> x < width \<Longrightarrow> NV12_row resv src ly1 ly2 lcr lcb l1 l2 width x dst = Some dst"
  by (subst NV12_row.simps) simp

lemma NV12_pixel_shift:
  assumes "2 \<le> k"
  shows "NV12_pixel resv src (ly + 2) (lcr + 2) (lcb + 2) (k - 2) = NV12_pixel resv src ly lcr lcb k"
proof -
  have h: "2 + 2 * ((k - 2) div 2) = 2 * (k div 2)" by presburger
  have c1: "lcr + 2 + 2 * ((k - 2) div 2) = lcr + 2 * (k div 2)"
    and c2: "lcb + 2 + 2 * ((k - 2) div 2) = lcb + 2 * (k div 2)"
    and c3: "ly + 2 + (k - 2) = ly + k"
    using h by linarith+
  show ?thesis by (simp only: NV12_pixel_def c1 c2 c3)
qed

lemma NV12_row_correct:
  fixes width :: "32 word"
  assumes ew: "even (uint width)"
  shows "even (uint x) \<Longrightarrow> l1 + 4 * (uint width - uint x) \<le> l2 \<Longrightarrow>
         \<exists>d. NV12_row resv src ly1 ly2 lcr lcb l1 l2 width x dst = Some d
            \<and> (\<forall>k. 0 \<le> k \<and> k < uint width - uint x \<longrightarrow>
                   read_quad d (l1 + 4 * k) = NV12_pixel resv src ly1 lcr lcb k
                 \<and> read_quad d (l2 + 4 * k) = NV12_pixel resv src ly2 lcr lcb k)
            \<and> (\<forall>a. \<not> (l1 \<le> a \<and> a < l1 + 4 * (uint width - uint x))
                 \<and> \<not> (l2 \<le> a \<and> a < l2 + 4 * (uint width - uint x)) \<longrightarrow> d a = dst a)"
proof (induction "nat (uint width - uint x)" arbitrary: x dst ly1 ly2 lcr lcb l1 l2 rule: less_induct)
  case less
  define n where "n = uint width - uint x"
  show ?case
  proof (cases "x < width")
    case False
    then have "\<not> uint x < uint width" by (simp add: word_less_def)
    then show ?thesis using False by (auto simp: NV12_row_stop)
  next
    case True
    define dst1 where "dst1 = write_quad dst l1 (NV12_pixel resv src ly1 lcr lcb 0)"
    define dst2 where "dst2 = write_quad dst1 (l1 + 4) (NV12_pixel resv src ly1 lcr lcb 1)"
    define dst3 where "dst3 = write_quad dst2 l2 (NV12_pixel resv src ly2 lcr lcb 0)"
    define dst4 where "dst4 = write_quad dst3 (l2 + 4) (NV12_pixel resv src ly2 lcr lcb 1)"
    have lt: "uint x < uint width" using True by (simp add: word_less_def)
    have le2: "uint x + 2 \<le> uint width" using lt ew less.prems(1) by presburger
    have n2: "2 \<le> n" using le2 by (simp add: n_def)
    have sep: "l1 + 4 * n \<le> l2" using less.prems(2) by (simp add: n_def)
    have bound: "uint x + 2 < 2 ^ 32" using le2 uint_lt2p [of width] by simp
    have u2: "uint (x + 2) = uint x + 2" by (rule uint_add2 [OF bound])
    have n': "uint width - uint (x + 2) = n - 2" by (simp add: u2 n_def)
    have ev2: "even (uint (x + 2))" using less.prems(1) by (simp add: u2)
    have meas: "nat (uint width - uint (x + 2)) < nat (uint width - uint x)"
      using lt by (simp add: u2)
    have sep': "l1 + 8 + 4 * (uint width - uint (x + 2)) \<le> l2 + 8"
      using sep by (simp add: n')
    have step: "NV12_row resv src ly1 ly2 lcr lcb l1 l2 width x dst =
                NV12_row resv src (ly1 + 2) (ly2 + 2) (lcr + 2) (lcb + 2) (l1 + 8) (l2 + 8) width (x + 2) dst4"
      unfolding dst4_def dst3_def dst2_def dst1_def by (rule NV12_row_step [OF True])
    from less.hyps [OF meas ev2 sep', where ?ly1.0 = "ly1 + 2" and ?ly2.0 = "ly2 + 2"
                      and lcr = "lcr + 2" and lcb = "lcb + 2" and dst = dst4]
    obtain d where
      d: "NV12_row resv src (ly1 + 2) (ly2 + 2) (lcr + 2) (lcb + 2) (l1 + 8) (l2 + 8) width (x + 2) dst4 = Some d"
      and dpix1: "\<And>k. 0 \<le> k \<Longrightarrow> k < n - 2 \<Longrightarrow>
                   read_quad d (l1 + 8 + 4 * k) = NV12_pixel resv src (ly1 + 2) (lcr + 2) (lcb + 2) k"
      and dpix2: "\<And>k. 0 \<le> k \<Longrightarrow> k < n - 2 \<Longrightarrow>
                   read_quad d (l2 + 8 + 4 * k) = NV12_pixel resv src (ly2 + 2) (lcr + 2) (lcb + 2) k"
      and dframe: "\<And>a. \<not> (l1 + 8 \<le> a \<and> a < l1 + 8 + 4 * (n - 2)) \<Longrightarrow>
                       \<not> (l2 + 8 \<le> a \<and> a < l2 + 8 + 4 * (n - 2)) \<Longrightarrow> d a = dst4 a"
      unfolding n' by blast
    have keep1: "read_quad d a = read_quad dst4 a" if "l1 \<le> a" "a + 4 \<le> l1 + 8" for a
    proof (rule read_quad_eqI)
      fix c assume "a \<le> c" "c < a + 4"
      then show "d c = dst4 c" using that sep n2 by (intro dframe) auto
    qed
    have keep2: "read_quad d a = read_quad dst4 a" if "l2 \<le> a" "a + 4 \<le> l2 + 8" for a
    proof (rule read_quad_eqI)
      fix c assume "a \<le> c" "c < a + 4"
      then show "d c = dst4 c" using that sep n2 by (intro dframe) auto
    qed
    have q10: "read_quad dst4 l1 = NV12_pixel resv src ly1 lcr lcb 0"
      using sep n2 unfolding dst4_def dst3_def dst2_def dst1_def
      by (simp add: read_quad_write_quad_other read_quad_write_quad_same)
    have q11: "read_quad dst4 (l1 + 4) = NV12_pixel resv src ly1 lcr lcb 1"
      using sep n2 unfolding dst4_def dst3_def dst2_def dst1_def
      by (simp add: read_quad_write_quad_other read_quad_write_quad_same)
    have q20: "read_quad dst4 l2 = NV12_pixel resv src ly2 lcr lcb 0"
      using sep n2 unfolding dst4_def dst3_def dst2_def dst1_def
      by (simp add: read_quad_write_quad_other read_quad_write_quad_same)
    have q21: "read_quad dst4 (l2 + 4) = NV12_pixel resv src ly2 lcr lcb 1"
      using sep n2 unfolding dst4_def dst3_def dst2_def dst1_def
      by (simp add: read_quad_write_quad_other read_quad_write_quad_same)
    have pix: "read_quad d (l1 + 4 * k) = NV12_pixel resv src ly1 lcr lcb k
             \<and> read_quad d (l2 + 4 * k) = NV12_pixel resv src ly2 lcr lcb k"
      if k: "0 \<le> k" "k < n" for k
    proof -
      have "k = 0 \<or> k = 1 \<or> 2 \<le> k" using k by linarith
      then show ?thesis
      proof (elim disjE)
        assume "k = 0"
        then show ?thesis using keep1 [of l1] keep2 [of l2] q10 q20 by simp
      next
        assume "k = 1"
        then show ?thesis using keep1 [of "l1 + 4"] keep2 [of "l2 + 4"] q11 q21 by simp
      next
        assume k2: "2 \<le> k"
        have a1: "l1 + 8 + 4 * (k - 2) = l1 + 4 * k" and a2: "l2 + 8 + 4 * (k - 2) = l2 + 4 * k"
          by simp_all
        have "0 \<le> k - 2" "k - 2 < n - 2" using k k2 by simp_all
        from dpix1 [OF this] dpix2 [OF this] show ?thesis
          unfolding a1 a2 NV12_pixel_shift [OF k2] by simp
      qed
    qed
    have frame: "d a = dst a"
      if "\<not> (l1 \<le> a \<and> a < l1 + 4 * n)" "\<not> (l2 \<le> a \<and> a < l2 + 4 * n)" for a
    proof -
      have "d a = dst4 a" using that by (intro dframe) auto
      also have "\<dots> = dst3 a" unfolding dst4_def using that n2 by (intro write_quad_other) arith
      also have "\<dots> = dst2 a" unfolding dst3_def using that n2 by (intro write_quad_other) arith
      also have "\<dots> = dst1 a" unfolding dst2_def using that n2 by (intro write_quad_other) arith
      also have "\<dots> = dst a" unfolding dst1_def using that n2 by (intro write_quad_other) arith
      finally show ?thesis .
    qed
    show ?thesis using step d pix frame unfolding n_def by auto
  qed
qed

lemma uint_max32: "uint (- 1 :: 32 word) = 4294967295"
  by (simp add: unsigned_minus_1_eq_mask mask_eq_exp_minus_1)

lemma word32_not_max: "(w :: 32 word) \<noteq> - 1 \<Longrightarrow> uint w < 4294967295"
proof -
  assume "w \<noteq> - 1"
  then have "uint w \<noteq> uint (- 1 :: 32 word)" by (simp only: word_uint_eq_iff [symmetric]) simp
  then show ?thesis using uint_lt2p [of w] by (simp add: uint_max32)
qed

lemma even_uint_add2:
  assumes "even (uint (x :: 32 word))"
  shows "even (uint (x + 2))"
proof (cases "uint x + 2 < 2 ^ 32")
  case True
  then show ?thesis using assms by (simp add: uint_add2)
next
  case False
  then have "uint x = 4294967294 \<or> uint x = 4294967295" using uint_lt2p [of x] by simp arith
  with assms have "uint x = 4294967294" by auto
  then have "x = word_of_int 4294967294" by (metis word_of_int_uint)
  then have "x + 2 = 0" by simp
  then show ?thesis by simp
qed

lemma YUY2_row_terminates:
  fixes width :: "32 word"
  assumes w: "width \<noteq> - 1"
  shows "even (uint x) \<Longrightarrow> \<exists>d. YUY2_row resv src source destination width x dst = Some d"
proof (induction "nat (uint width + 1 - uint x)" arbitrary: x dst rule: less_induct)
  case less
  show ?case
  proof (cases "x < width")
    case False
    then show ?thesis by (simp add: YUY2_row_stop)
  next
    case True
    have wb: "uint width < 4294967295" by (rule word32_not_max [OF w])
    have lt: "uint x < uint width" using True by (simp add: word_less_def)
    have bound: "uint x + 2 < 2 ^ 32" using lt wb by simp
    have u2: "uint (x + 2) = uint x + 2" by (rule uint_add2 [OF bound])
    have ev2: "even (uint (x + 2))" using less.prems by (simp add: u2)
    have meas: "nat (uint width + 1 - uint (x + 2)) < nat (uint width + 1 - uint x)"
      using lt by (simp add: u2)
    show ?thesis
      using less.hyps [OF meas ev2] by (simp add: YUY2_row_step [OF True])
  qed
qed

lemma YUY2_rows_terminates:
  assumes "width \<noteq> - 1"
  shows "\<exists>d. YUY2_rows resv src source srcStride destination destStride width height y dst = Some d"
  using assms
proof (induction resv src source srcStride destination destStride width height y dst
       rule: YUY2_rows.induct)
  case (1 resv src source srcStride destination destStride width height y dst)
  show ?case
  proof (cases "y < height")
    case False
    then show ?thesis by (simp add: YUY2_rows.simps)
  next
    case True
    obtain d0 where d0: "YUY2_row resv src source destination width 0 dst = Some d0"
      using YUY2_row_terminates [OF "1.prems", where x = 0] by fastforce
    show ?thesis
      using "1.IH" [OF True d0 "1.prems"] True d0 by (subst YUY2_rows.simps) simp
  qed
qed

lemma YUY2_row_max_diverges:
  assumes "YUY2_row resv src source destination width x dst = Some d"
  shows "\<not> (width = - 1 \<and> even (uint x))"
proof (rule YUY2_row.raw_induct
         [where xa = "((((((resv, src), source), destination), width), x), dst)" and y = d
            and P = "\<lambda>resv src source destination width x dst d. \<not> (width = - 1 \<and> even (uint x))",
          unfolded prod.case])
  show "YUY2_row resv src source destination width x dst = Some d" by (rule assms)
next
  fix f :: "8 word \<Rightarrow> mem \<Rightarrow> addr \<Rightarrow> addr \<Rightarrow> 32 word \<Rightarrow> 32 word \<Rightarrow> mem \<Rightarrow> mem option"
  fix resv src source destination and width x :: "32 word" and dst r
  assume IH: "\<And>src source destination width x dst b y.
        f src source destination width x dst b = Some y \<Longrightarrow> \<not> (x = - 1 \<and> even (uint dst))"
  assume body: "(if x < width
      then let y0 = uint (LOBYTE (read16 src (source + 2 * uint x)));
               u0 = uint (HIBYTE (read16 src (source + 2 * uint x)));
               y1 = uint (LOBYTE (read16 src (source + 2 * uint (x + 1))));
               v0 = uint (HIBYTE (read16 src (source + 2 * uint (x + 1))));
               dst1 = write_quad dst (destination + 4 * uint x) (ConvertYCrCbToRGB resv y0 v0 u0)
           in Let (write_quad dst1 (destination + 4 * uint (x + 1)) (ConvertYCrCbToRGB resv y1 v0 u0))
               (f resv src source destination width (x + 2))
      else Some dst) = Some r"
  show "\<not> (width = - 1 \<and> even (uint x))"
  proof
    assume a: "width = - 1 \<and> even (uint x)"
    then have "x \<noteq> - 1" by (auto simp: uint_max32)
    then have "x < width" using a by (simp add: word_order.not_eq_extremum)
    with body obtain dst' where "f resv src source destination width (x + 2) dst' = Some r"
      by (simp add: Let_def)
    from IH [OF this] a even_uint_add2 show False by blast
  qed
qed

lemma uint_double:
  assumes "uint (s :: 32 word) < 2 ^ 31"
  shows "uint (2 * s) = 2 * uint s"
proof -
  have "uint (2 :: 32 word) * uint s < 2 ^ LENGTH(32)" using assms by simp
  then have "uint (2 * s) = uint (2 :: 32 word) * uint s" by (rule uint_mult_lem [THEN iffD1])
  then show ?thesis by simp
qed

lemma NV12_rows_step:
  assumes "y < height"
  shows "NV12_rows resv src lpBitsY lpBitsCb lpBitsCr srcStride destination destStride width height y dst =
         Option.bind
           (NV12_row resv src lpBitsY (lpBitsY + uint srcStride) lpBitsCr lpBitsCb
              destination (destination + uint destStride) width 0 dst)
           (\<lambda>dst'. NV12_rows resv src (lpBitsY + uint (2 * srcStride)) (lpBitsCb + uint srcStride)
                     (lpBitsCr + uint srcStride) srcStride (destination + uint (2 * destStride))
                     destStride width height (y + 2) dst')"
  using assms by (subst NV12_rows.simps) simp

lemma NV12_rows_stop:
  "\<not> y < height \<Longrightarrow>
   NV12_rows resv src lpBitsY lpBitsCb lpBitsCr srcStride destination destStride width height y dst = Some dst"
  by (subst NV12_rows.simps) simp

lemma NV12_rows_correct:
  fixes width height srcStride destStride :: "32 word"
  assumes ew: "even (uint width)" and eh: "even (uint height)"
    and ds: "4 * uint width \<le> uint destStride"
    and dsb: "uint destStride < 2 ^ 31" and ssb: "uint srcStride < 2 ^ 31"
  shows "even (uint y) \<Longrightarrow>
         \<exists>d. NV12_rows resv src lY lCb lCr srcStride dest destStride width height y dst = Some d
            \<and> (\<forall>r i. 0 \<le> r \<and> r < uint height - uint y \<and> 0 \<le> i \<and> i < uint width \<longrightarrow>
                   read_quad d (dest + r * uint destStride + 4 * i)
                     = NV12_pixel resv src (lY + r * uint srcStride) (lCr + (r div 2) * uint srcStride)
                         (lCb + (r div 2) * uint srcStride) i)
            \<and> (\<forall>a. a < dest \<longrightarrow> d a = dst a)"
proof (induction "nat (uint height - uint y)" arbitrary: y dst lY lCb lCr dest rule: less_induct)
  case less
  define S where "S = uint srcStride"
  define D where "D = uint destStride"
  have D0: "0 \<le> D" and S0: "0 \<le> S" by (simp_all add: D_def S_def)
  have wD: "4 * uint width \<le> D" using ds by (simp add: D_def)
  have D2: "uint (2 * destStride) = 2 * D" unfolding D_def by (rule uint_double [OF dsb])
  have S2: "uint (2 * srcStride) = 2 * S" unfolding S_def by (rule uint_double [OF ssb])
  show ?case
  proof (cases "y < height")
    case False
    then have "\<not> uint y < uint height" by (simp add: word_less_def)
    then show ?thesis using False by (auto simp: NV12_rows_stop)
  next
    case True
    have lt: "uint y < uint height" using True by (simp add: word_less_def)
    have le2: "uint y + 2 \<le> uint height" using lt eh less.prems by presburger
    have bound: "uint y + 2 < 2 ^ 32" using le2 uint_lt2p [of height] by simp
    have u2: "uint (y + 2) = uint y + 2" by (rule uint_add2 [OF bound])
    have ev2: "even (uint (y + 2))" using less.prems by (simp add: u2)
    have meas: "nat (uint height - uint (y + 2)) < nat (uint height - uint y)"
      using lt by (simp add: u2)
    have sep: "dest + 4 * (uint width - uint (0 :: 32 word)) \<le> dest + D" using wD by simp
    have ev0: "even (uint (0 :: 32 word))" by simp
    from NV12_row_correct [OF ew ev0 sep, of resv src lY "lY + S" lCr lCb dst]
    obtain d0 where
      d0: "NV12_row resv src lY (lY + S) lCr lCb dest (dest + D) width 0 dst = Some d0"
      and d0pix1: "\<And>k. 0 \<le> k \<Longrightarrow> k < uint width \<Longrightarrow>
                     read_quad d0 (dest + 4 * k) = NV12_pixel resv src lY lCr lCb k"
      and d0pix2: "\<And>k. 0 \<le> k \<Longrightarrow> k < uint width \<Longrightarrow>
                     read_quad d0 (dest + D + 4 * k) = NV12_pixel resv src (lY + S) lCr lCb k"
      and d0frame: "\<And>a. a < dest \<Longrightarrow> d0 a = dst a"
      using D0 by fastforce
    from less.hyps [OF meas ev2, where dst = d0 and lY = "lY + 2 * S" and lCb = "lCb + S"
                      and lCr = "lCr + S" and dest = "dest + 2 * D"]
    obtain d where
      d: "NV12_rows resv src (lY + 2 * S) (lCb + S) (lCr + S) srcStride (dest + 2 * D) destStride
            width height (y + 2) d0 = Some d"
      and dpix: "\<And>r i. 0 \<le> r \<Longrightarrow> r < uint height - (uint y + 2) \<Longrightarrow> 0 \<le> i \<Longrightarrow> i < uint width \<Longrightarrow>
                   read_quad d (dest + 2 * D + r * D + 4 * i)
                     = NV12_pixel resv src (lY + 2 * S + r * S) (lCr + S + (r div 2) * S)
                         (lCb + S + (r div 2) * S) i"
      and dframe: "\<And>a. a < dest + 2 * D \<Longrightarrow> d a = d0 a"
      unfolding u2 D_def [symmetric] S_def [symmetric] by blast
    have res: "NV12_rows resv src lY lCb lCr srcStride dest destStride width height y dst = Some d"
      using d0 d by (simp add: NV12_rows_step [OF True] D2 S2 D_def [symmetric] S_def [symmetric])
    have pix: "read_quad d (dest + r * D + 4 * i)
                 = NV12_pixel resv src (lY + r * S) (lCr + (r div 2) * S) (lCb + (r div 2) * S) i"
      if r: "0 \<le> r" "r < uint height - uint y" and i: "0 \<le> i" "i < uint width" for r i
    proof -
      have "r = 0 \<or> r = 1 \<or> 2 \<le> r" using r by linarith
      then show ?thesis
      proof (elim disjE)
        assume r0: "r = 0"
        have "read_quad d (dest + 4 * i) = read_quad d0 (dest + 4 * i)"
        proof (rule read_quad_eqI)
          fix c assume "dest + 4 * i \<le> c" "c < dest + 4 * i + 4"
          then show "d c = d0 c" using i wD D0 by (intro dframe) linarith
        qed
        then show ?thesis using r0 d0pix1 [OF i] by simp
      next
        assume r1: "r = 1"
        have "read_quad d (dest + D + 4 * i) = read_quad d0 (dest + D + 4 * i)"
        proof (rule read_quad_eqI)
          fix c assume "dest + D + 4 * i \<le> c" "c < dest + D + 4 * i + 4"
          then show "d c = d0 c" using i wD D0 by (intro dframe) linarith
        qed
        then show ?thesis using r1 d0pix2 [OF i] by simp
      next
        assume r2: "2 \<le> r"
        have r': "0 \<le> r - 2" "r - 2 < uint height - (uint y + 2)" using r r2 by simp_all
        have hd: "(r - 2) div 2 = r div 2 - 1" by presburger
        have a1: "dest + 2 * D + (r - 2) * D + 4 * i = dest + r * D + 4 * i"
          by (simp add: algebra_simps)
        have a2: "lY + 2 * S + (r - 2) * S = lY + r * S" by (simp add: algebra_simps)
        have a3: "lCr + S + ((r - 2) div 2) * S = lCr + (r div 2) * S"
          unfolding hd by (simp add: algebra_simps)
        have a4: "lCb + S + ((r - 2) div 2) * S = lCb + (r div 2) * S"
          unfolding hd by (simp add: algebra_simps)
        show ?thesis using dpix [OF r' i] unfolding a1 a2 a3 a4 .
      qed
    qed
    have frame: "d a = dst a" if "a < dest" for a
    proof -
      have "d a = d0 a" using that D0 by (intro dframe) linarith
      then show ?thesis using d0frame [OF that] by simp
    qed
    show ?thesis using res pix frame unfolding D_def S_def by auto
  qed
qed

lemma NV12_row_terminates:
  fixes width :: "32 word"
  assumes w: "width \<noteq> - 1"
  shows "even (uint x) \<Longrightarrow>
         \<exists>d. NV12_row resv src ly1 ly2 lcr lcb l1 l2 width x dst = Some d"
proof (induction "nat (uint width + 1 - uint x)" arbitrary: x dst ly1 ly2 lcr lcb l1 l2
       rule: less_induct)
  case less
  show ?case
  proof (cases "x < width")
    case False
    then show ?thesis by (simp add: NV12_row_stop)
  next
    case True
    have wb: "uint width < 4294967295" by (rule word32_not_max [OF w])
    have lt: "uint x < uint width" using True by (simp add: word_less_def)
    have bound: "uint x + 2 < 2 ^ 32" using lt wb by simp
    have u2: "uint (x + 2) = uint x + 2" by (rule uint_add2 [OF bound])
    have ev2: "even (uint (x + 2))" using less.prems by (simp add: u2)
    have meas: "nat (uint width + 1 - uint (x + 2)) < nat (uint width + 1 - uint x)"
      using lt by (simp add: u2)
    show ?thesis
      using less.hyps [OF meas ev2] by (simp add: NV12_row_step [OF True])
  qed
qed

lemma NV12_rows_terminates:
  fixes width height :: "32 word"
  assumes w: "width \<noteq> - 1" and h: "height \<noteq> - 1"
  shows "even (uint y) \<Longrightarrow>
         \<exists>d. NV12_rows resv src lY lCb lCr srcStride dest destStride width height y dst = Some d"
proof (induction "nat (uint height + 1 - uint y)" arbitrary: y dst lY lCb lCr dest rule: less_induct)
  case less
  show ?case
  proof (cases "y < height")
    case False
    then show ?thesis by (simp add: NV12_rows_stop)
  next
    case True
    have hb: "uint height < 4294967295" by (rule word32_not_max [OF h])
    have lt: "uint y < uint height" using True by (simp add: word_less_def)
    have bound: "uint y + 2 < 2 ^ 32" using lt hb by simp
    have u2: "uint (y + 2) = uint y + 2" by (rule uint_add2 [OF bound])
    have ev2: "even (uint (y + 2))" using less.prems by (simp add: u2)
    have meas: "nat (uint height + 1 - uint (y + 2)) < nat (uint height + 1 - uint y)"
      using lt by (simp add: u2)
    obtain d0 where d0: "NV12_row resv src lY (lY + uint srcStride) lCr lCb dest
                           (dest + uint destStride) width 0 dst = Some d0"
      using NV12_row_terminates [OF w, where x = 0] by fastforce
    show ?thesis
      using less.hyps [OF meas ev2] d0 by (simp add: NV12_rows_step [OF True])
  qed
qed

lemma YUY2_convert_returns:
  assumes "width \<noteq> - 1"
  shows "\<exists>d. FormatConvertorYUY2_convert resv dst destination destStride src source srcStride width height
               = Some (True, d)"
proof -
  obtain d where "YUY2_rows resv src source srcStride destination destStride width height 0 dst = Some d"
    using YUY2_rows_terminates [OF assms] by blast
  then show ?thesis by (simp add: FormatConvertorYUY2_convert_def)
qed

lemma NV12_convert_returns:
  assumes "width \<noteq> - 1" and "height \<noteq> - 1"
  shows "\<exists>d. FormatConvertorNV12_convert resv dst destination destStride src source srcStride width height
               = Some (True, d)"
proof -
  have "even (uint (0 :: 32 word))" by simp
  from NV12_rows_terminates [OF assms this]
  obtain d where "NV12_rows resv src source (source + uint (height * srcStride))
                    (source + uint (height * srcStride) + 1) srcStride destination destStride
                    width height 0 dst = Some d"
    by blast
  then show ?thesis by (simp add: FormatConvertorNV12_convert_def Let_def)
qed

lemma NV12_convert_pixels:
  fixes width height srcStride destStride :: "32 word"
  assumes ew: "even (uint width)" and eh: "even (uint height)"
    and ds: "4 * uint width \<le> uint destStride"
    and dsb: "uint destStride < 2 ^ 31" and ssb: "uint srcStride < 2 ^ 31"
    and hs: "uint height * uint srcStride < 2 ^ 32"
  shows "\<exists>d. FormatConvertorNV12_convert resv dst destination destStride src source srcStride width height
               = Some (True, d)
            \<and> (\<forall>r i. 0 \<le> r \<and> r < uint height \<and> 0 \<le> i \<and> i < uint width \<longrightarrow>
                   read_quad d (destination + r * uint destStride + 4 * i)
                     = NV12_pixel resv src (source + r * uint srcStride)
                         (source + uint height * uint srcStride + 1 + (r div 2) * uint srcStride)
                         (source + uint height * uint srcStride + (r div 2) * uint srcStride) i)"
proof -
  have m: "uint (height * srcStride) = uint height * uint srcStride"
    using hs by (simp add: uint_mult_lem [THEN iffD1])
  have ev0: "even (uint (0 :: 32 word))" by simp
  from NV12_rows_correct [OF ew eh ds dsb ssb ev0, of resv src source
         "source + uint height * uint srcStride" "source + uint height * uint srcStride + 1"
         destination dst]
  obtain d where "NV12_rows resv src source (source + uint height * uint srcStride)
                    (source + uint height * uint srcStride + 1) srcStride destination destStride
                    width height 0 dst = Some d"
    and "\<And>r i. 0 \<le> r \<and> r < uint height \<and> 0 \<le> i \<and> i < uint width \<Longrightarrow>
                   read_quad d (destination + r * uint destStride + 4 * i)
                     = NV12_pixel resv src (source + r * uint srcStride)
                         (source + uint height * uint srcStride + 1 + (r div 2) * uint srcStride)
                         (source + uint height * uint srcStride + (r div 2) * uint srcStride) i"
    by fastforce
  then show ?thesis by (auto simp: FormatConvertorNV12_convert_def Let_def m)
qed

lemma uint_Clip: "uint (Clip v) = clip_spec v"
proof -
  have "uint (word_of_int k :: 8 word) = k" if "0 \<le> k" "k \<le> 255" for k
    using that by (simp add: uint_word_of_int)
  then show ?thesis by (simp add: Clip_def clip_spec_def)
qed

lemma ConvertYCrCbToRGB_studio:
  "pixel_rgb (ConvertYCrCbToRGB resv Y Cr Cb) = studio_rgb Y Cb Cr"
  by (simp add: pixel_rgb_def ConvertYCrCbToRGB_def studio_rgb_def Let_def uint_Clip drop_bit_eq_div)

lemma pixel_rgb_reserved [simp]: "pixel_rgb (q \<lparr> rgbReserved := v \<rparr>) = pixel_rgb q"
  by (simp add: pixel_rgb_def)

lemma studio_white: "studio_rgb 235 128 128 = (255, 255, 255)"
  by (simp add: studio_rgb_def clip_spec_def)

lemma ConvertYCrCbToRGB_in_int32:
  fixes y cb cr :: int
  assumes "0 \<le> y" "y \<le> 255" "0 \<le> cb" "cb \<le> 255" "0 \<le> cr" "cr \<le> 255"
  shows "\<bar>298 * (y - 16) + 409 * (cr - 128) + 128\<bar> < 2 ^ 31"
    and "\<bar>298 * (y - 16) - 100 * (cb - 128) - 208 * (cr - 128) + 128\<bar> < 2 ^ 31"
    and "\<bar>298 * (y - 16) + 516 * (cb - 128) + 128\<bar> < 2 ^ 31"
  using assms by (simp_all add: abs_less_iff)

text \<open>
  C1: both YCbCr converters compute every output pixel by the studio-range formula
  \<open>c = Y - 16\<close>, \<open>d = Cb - 128\<close>, \<open>e = Cr - 128\<close>,
  \<open>R = clip ((298 c + 409 e + 128) >> 8)\<close>,
  \<open>G = clip ((298 c - 100 d - 208 e + 128) >> 8)\<close>,
  \<open>B = clip ((298 c + 516 d + 128) >> 8)\<close>, and a frame uniformly filled with
  \<open>Y = 235\<close>, \<open>Cb = Cr = 128\<close> converts to a frame uniformly filled with (255, 255, 255).

  For a frame of even width and height whose destination rows do not overlap
  (\<open>4 * width \<le> destStride\<close>) and whose 32-bit offsets do not wrap, each converter returns
  \<open>true\<close>, and the pixel in row \<open>r\<close>, column \<open>i\<close> of the destination is \<open>studio_rgb\<close>
  of the luma byte of that position and the chroma pair it shares: in the packed 4:2:2
  layout the bytes \<open>2 i\<close>, \<open>4 (i div 2) + 1\<close> and \<open>4 (i div 2) + 3\<close> of source row
  \<open>r\<close>; in the planar 4:2:0 layout byte \<open>i\<close> of luma row \<open>r\<close> and the bytes
  \<open>2 (i div 2)\<close>, \<open>2 (i div 2) + 1\<close> of chroma row \<open>r div 2\<close>, the chroma plane
  starting \<open>height * srcStride\<close> bytes after the luma plane.
\<close>

theorem YCbCr_converters_pixel_formula:
  fixes width height srcStride destStride :: "32 word"
  assumes ew: "even (uint width)" and eh: "even (uint height)"
    and ds: "4 * uint width \<le> uint destStride"
    and dsb: "uint destStride < 2 ^ 31" and ssb: "uint srcStride < 2 ^ 31"
    and hs: "uint height * uint srcStride < 2 ^ 32"
  shows "(\<exists>d. FormatConvertorYUY2_convert resv dst destination destStride src source srcStride width height
                = Some (True, d)
             \<and> (\<forall>r i. 0 \<le> r \<and> r < uint height \<and> 0 \<le> i \<and> i < uint width \<longrightarrow>
                    pixel_rgb (read_quad d (destination + r * uint destStride + 4 * i))
                      = studio_rgb (uint (src (source + r * uint srcStride + 2 * i)))
                          (uint (src (source + r * uint srcStride + 4 * (i div 2) + 1)))
                          (uint (src (source + r * uint srcStride + 4 * (i div 2) + 3))))
             \<and> ((\<forall>r i. 0 \<le> r \<and> r < uint height \<and> 0 \<le> i \<and> i < uint width \<longrightarrow>
                     src (source + r * uint srcStride + 2 * i) = 235
                   \<and> src (source + r * uint srcStride + 4 * (i div 2) + 1) = 128
                   \<and> src (source + r * uint srcStride + 4 * (i div 2) + 3) = 128)
                 \<longrightarrow> (\<forall>r i. 0 \<le> r \<and> r < uint height \<and> 0 \<le> i \<and> i < uint width \<longrightarrow>
                        pixel_rgb (read_quad d (destination + r * uint destStride + 4 * i))
                          = (255, 255, 255))))
       \<and> (\<exists>d. FormatConvertorNV12_convert resv dst destination destStride src source srcStride width height
                = Some (True, d)
             \<and> (\<forall>r i. 0 \<le> r \<and> r < uint height \<and> 0 \<le> i \<and> i < uint width \<longrightarrow>
                    pixel_rgb (read_quad d (destination + r * uint destStride + 4 * i))
                      = studio_rgb (uint (src (source + r * uint srcStride + i)))
                          (uint (src (source + uint height * uint srcStride
                                        + (r div 2) * uint srcStride + 2 * (i div 2))))
                          (uint (src (source + uint height * uint srcStride
                                        + (r div 2) * uint srcStride + 2 * (i div 2) + 1))))
             \<and> ((\<forall>r i. 0 \<le> r \<and> r < uint height \<and> 0 \<le> i \<and> i < uint width \<longrightarrow>
                     src (source + r * uint srcStride + i) = 235
                   \<and> src (source + uint height * uint srcStride
                             + (r div 2) * uint srcStride + 2 * (i div 2)) = 128
                   \<and> src (source + uint height * uint srcStride
                             + (r div 2) * uint srcStride + 2 * (i div 2) + 1) = 128)
                 \<longrightarrow> (\<forall>r i. 0 \<le> r \<and> r < uint height \<and> 0 \<le> i \<and> i < uint width \<longrightarrow>
                        pixel_rgb (read_quad d (destination + r * uint destStride + 4 * i))
                          = (255, 255, 255))))"
proof (rule conjI)
  obtain d where d: "FormatConvertorYUY2_convert resv dst destination destStride src source srcStride
                       width height = Some (True, d)"
    and pix: "\<And>r i. 0 \<le> r \<and> r < uint height \<and> 0 \<le> i \<and> i < uint width \<Longrightarrow>
                read_quad d (destination + r * uint destStride + 4 * i)
                  = YUY2_pixel resv src (source + r * uint srcStride) i"
    using YUY2_convert_pixels [OF ew ds, of resv dst destination src source srcStride height] by blast
  have f: "pixel_rgb (read_quad d (destination + r * uint destStride + 4 * i))
             = studio_rgb (uint (src (source + r * uint srcStride + 2 * i)))
                 (uint (src (source + r * uint srcStride + 4 * (i div 2) + 1)))
                 (uint (src (source + r * uint srcStride + 4 * (i div 2) + 3)))"
    if "0 \<le> r \<and> r < uint height \<and> 0 \<le> i \<and> i < uint width" for r i
    unfolding pix [OF that] YUY2_pixel_def by (rule ConvertYCrCbToRGB_studio)
  have w: "pixel_rgb (read_quad d (destination + r * uint destStride + 4 * i)) = (255, 255, 255)"
    if u: "\<forall>r i. 0 \<le> r \<and> r < uint height \<and> 0 \<le> i \<and> i < uint width \<longrightarrow>
                     src (source + r * uint srcStride + 2 * i) = 235
                   \<and> src (source + r * uint srcStride + 4 * (i div 2) + 1) = 128
                   \<and> src (source + r * uint srcStride + 4 * (i div 2) + 3) = 128"
      and ri: "0 \<le> r \<and> r < uint height \<and> 0 \<le> i \<and> i < uint width" for r i
    using u [rule_format, OF ri] by (simp add: f [OF ri] studio_white)
  show "\<exists>d. FormatConvertorYUY2_convert resv dst destination destStride src source srcStride width height
                = Some (True, d)
             \<and> (\<forall>r i. 0 \<le> r \<and> r < uint height \<and> 0 \<le> i \<and> i < uint width \<longrightarrow>
                    pixel_rgb (read_quad d (destination + r * uint destStride + 4 * i))
                      = studio_rgb (uint (src (source + r * uint srcStride + 2 * i)))
                          (uint (src (source + r * uint srcStride + 4 * (i div 2) + 1)))
                          (uint (src (source + r * uint srcStride + 4 * (i div 2) + 3))))
             \<and> ((\<forall>r i. 0 \<le> r \<and> r < uint height \<and> 0 \<le> i \<and> i < uint width \<longrightarrow>
                     src (source + r * uint srcStride + 2 * i) = 235
                   \<and> src (source + r * uint srcStride + 4 * (i div 2) + 1) = 128
                   \<and> src (source + r * uint srcStride + 4 * (i div 2) + 3) = 128)
                 \<longrightarrow> (\<forall>r i. 0 \<le> r \<and> r < uint height \<and> 0 \<le> i \<and> i < uint width \<longrightarrow>
                        pixel_rgb (read_quad d (destination + r * uint destStride + 4 * i))
                          = (255, 255, 255)))"
    using d f w by blast
next
  obtain d where d: "FormatConvertorNV12_convert resv dst destination destStride src source srcStride
                       width height = Some (True, d)"
    and pix: "\<And>r i. 0 \<le> r \<and> r < uint height \<and> 0 \<le> i \<and> i < uint width \<Longrightarrow>
                read_quad d (destination + r * uint destStride + 4 * i)
                  = NV12_pixel resv src (source + r * uint srcStride)
                      (source + uint height * uint srcStride + 1 + (r div 2) * uint srcStride)
                      (source + uint height * uint srcStride + (r div 2) * uint srcStride) i"
    using NV12_convert_pixels [OF ew eh ds dsb ssb hs, of resv dst destination src source] by blast
  have f: "pixel_rgb (read_quad d (destination + r * uint destStride + 4 * i))
             = studio_rgb (uint (src (source + r * uint srcStride + i)))
                 (uint (src (source + uint height * uint srcStride
                               + (r div 2) * uint srcStride + 2 * (i div 2))))
                 (uint (src (source + uint height * uint srcStride
                               + (r div 2) * uint srcStride + 2 * (i div 2) + 1)))"
    if "0 \<le> r \<and> r < uint height \<and> 0 \<le> i \<and> i < uint width" for r i
  proof -
    have e: "source + uint height * uint srcStride + 1 + (r div 2) * uint srcStride + 2 * (i div 2)
           = source + uint height * uint srcStride + (r div 2) * uint srcStride + 2 * (i div 2) + 1"
      by simp
    show ?thesis
      unfolding pix [OF that] NV12_pixel_def pixel_rgb_reserved e by (rule ConvertYCrCbToRGB_studio)
  qed
  have w: "pixel_rgb (read_quad d (destination + r * uint destStride + 4 * i)) = (255, 255, 255)"
    if u: "\<forall>r i. 0 \<le> r \<and> r < uint height \<and> 0 \<le> i \<and> i < uint width \<longrightarrow>
                     src (source + r * uint srcStride + i) = 235
                   \<and> src (source + uint height * uint srcStride
                             + (r div 2) * uint srcStride + 2 * (i div 2)) = 128
                   \<and> src (source + uint height * uint srcStride
                             + (r div 2) * uint srcStride + 2 * (i div 2) + 1) = 128"
      and ri: "0 \<le> r \<and> r < uint height \<and> 0 \<le> i \<and> i < uint width" for r i
    using u [rule_format, OF ri] by (simp add: f [OF ri] studio_white)
  show "\<exists>d. FormatConvertorNV12_convert resv dst destination destStride src source srcStride width height
                = Some (True, d)
             \<and> (\<forall>r i. 0 \<le> r \<and> r < uint height \<and> 0 \<le> i \<and> i < uint width \<longrightarrow>
                    pixel_rgb (read_quad d (destination + r * uint destStride + 4 * i))
                      = studio_rgb (uint (src (source + r * uint srcStride + i)))
                          (uint (src (source + uint height * uint srcStride
                                        + (r div 2) * uint srcStride + 2 * (i div 2))))
                          (uint (src (source + uint height * uint srcStride
                                        + (r div 2) * uint srcStride + 2 * (i div 2) + 1))))
             \<and> ((\<forall>r i. 0 \<le> r \<and> r < uint height \<and> 0 \<le> i \<and> i < uint width \<longrightarrow>
                     src (source + r * uint srcStride + i) = 235
                   \<and> src (source + uint height * uint srcStride
                             + (r div 2) * uint srcStride + 2 * (i div 2)) = 128
                   \<and> src (source + uint height * uint srcStride
                             + (r div 2) * uint srcStride + 2 * (i div 2) + 1) = 128)
                 \<longrightarrow> (\<forall>r i. 0 \<le> r \<and> r < uint height \<and> 0 \<le> i \<and> i < uint width \<longrightarrow>
                        pixel_rgb (read_quad d (destination + r * uint destStride + 4 * i))
                          = (255, 255, 255)))"
    using d f w by blast
qed

lemma bytes_at_nth:
  "0 \<le> k \<Longrightarrow> k < int (length bs) \<Longrightarrow> bytes_at base bs (base + k) = bs ! nat k"
  by (simp add: bytes_at_def)

text \<open>
  C1 at a concrete input: a 2 x 2 frame of studio white in either layout converts to
  four white pixels.
\<close>

theorem YCbCr_converters_pixel_formula_witness:
  "(\<exists>d. FormatConvertorYUY2_convert 0 (bytes_at 0 []) 0 8
           (bytes_at 0 [235, 128, 235, 128, 235, 128, 235, 128]) 0 4 2 2 = Some (True, d)
        \<and> pixel_rgb (read_quad d 0) = (255, 255, 255) \<and> pixel_rgb (read_quad d 4) = (255, 255, 255)
        \<and> pixel_rgb (read_quad d 8) = (255, 255, 255) \<and> pixel_rgb (read_quad d 12) = (255, 255, 255))
   \<and> (\<exists>d. FormatConvertorNV12_convert 0 (bytes_at 0 []) 0 8
           (bytes_at 0 [235, 235, 235, 235, 128, 128]) 0 2 2 2 = Some (True, d)
        \<and> pixel_rgb (read_quad d 0) = (255, 255, 255) \<and> pixel_rgb (read_quad d 4) = (255, 255, 255)
        \<and> pixel_rgb (read_quad d 8) = (255, 255, 255) \<and> pixel_rgb (read_quad d 12) = (255, 255, 255))"
proof (rule conjI)
  let ?src = "bytes_at 0 [235, 128, 235, 128, 235, 128, 235, 128]"
  have u: "\<forall>r i. 0 \<le> r \<and> r < uint (2 :: 32 word) \<and> 0 \<le> i \<and> i < uint (2 :: 32 word) \<longrightarrow>
             ?src (0 + r * uint (4 :: 32 word) + 2 * i) = 235
           \<and> ?src (0 + r * uint (4 :: 32 word) + 4 * (i div 2) + 1) = 128
           \<and> ?src (0 + r * uint (4 :: 32 word) + 4 * (i div 2) + 3) = 128"
  proof (intro allI impI)
    fix r i :: int
    assume "0 \<le> r \<and> r < uint (2 :: 32 word) \<and> 0 \<le> i \<and> i < uint (2 :: 32 word)"
    then have "(r = 0 \<or> r = 1) \<and> (i = 0 \<or> i = 1)" by auto
    then show "?src (0 + r * uint (4 :: 32 word) + 2 * i) = 235
           \<and> ?src (0 + r * uint (4 :: 32 word) + 4 * (i div 2) + 1) = 128
           \<and> ?src (0 + r * uint (4 :: 32 word) + 4 * (i div 2) + 3) = 128"
      by (auto simp: bytes_at_def)
  qed
  from YCbCr_converters_pixel_formula [of 2 2 8 4 0 "bytes_at 0 []" 0 ?src 0]
  obtain d where d: "FormatConvertorYUY2_convert 0 (bytes_at 0 []) 0 8 ?src 0 4 2 2 = Some (True, d)"
    and w: "(\<forall>r i. 0 \<le> r \<and> r < uint (2 :: 32 word) \<and> 0 \<le> i \<and> i < uint (2 :: 32 word) \<longrightarrow>
             ?src (0 + r * uint (4 :: 32 word) + 2 * i) = 235
           \<and> ?src (0 + r * uint (4 :: 32 word) + 4 * (i div 2) + 1) = 128
           \<and> ?src (0 + r * uint (4 :: 32 word) + 4 * (i div 2) + 3) = 128)
          \<longrightarrow> (\<forall>r i. 0 \<le> r \<and> r < uint (2 :: 32 word) \<and> 0 \<le> i \<and> i < uint (2 :: 32 word) \<longrightarrow>
                 pixel_rgb (read_quad d (0 + r * uint (8 :: 32 word) + 4 * i)) = (255, 255, 255))"
    by auto
  from w u have a: "\<And>r i. 0 \<le> r \<and> r < uint (2 :: 32 word) \<and> 0 \<le> i \<and> i < uint (2 :: 32 word) \<Longrightarrow>
                 pixel_rgb (read_quad d (0 + r * uint (8 :: 32 word) + 4 * i)) = (255, 255, 255)"
    by blast
  show "\<exists>d. FormatConvertorYUY2_convert 0 (bytes_at 0 []) 0 8 ?src 0 4 2 2 = Some (True, d)
        \<and> pixel_rgb (read_quad d 0) = (255, 255, 255) \<and> pixel_rgb (read_quad d 4) = (255, 255, 255)
        \<and> pixel_rgb (read_quad d 8) = (255, 255, 255) \<and> pixel_rgb (read_quad d 12) = (255, 255, 255)"
    using d a [of 0 0] a [of 0 1] a [of 1 0] a [of 1 1] by simp
next
  let ?src = "bytes_at 0 [235, 235, 235, 235, 128, 128]"
  have u: "\<forall>r i. 0 \<le> r \<and> r < uint (2 :: 32 word) \<and> 0 \<le> i \<and> i < uint (2 :: 32 word) \<longrightarrow>
             ?src (0 + r * uint (2 :: 32 word) + i) = 235
           \<and> ?src (0 + uint (2 :: 32 word) * uint (2 :: 32 word)
                     + (r div 2) * uint (2 :: 32 word) + 2 * (i div 2)) = 128
           \<and> ?src (0 + uint (2 :: 32 word) * uint (2 :: 32 word)
                     + (r div 2) * uint (2 :: 32 word) + 2 * (i div 2) + 1) = 128"
  proof (intro allI impI)
    fix r i :: int
    assume "0 \<le> r \<and> r < uint (2 :: 32 word) \<and> 0 \<le> i \<and> i < uint (2 :: 32 word)"
    then have "(r = 0 \<or> r = 1) \<and> (i = 0 \<or> i = 1)" by auto
    then show "?src (0 + r * uint (2 :: 32 word) + i) = 235
           \<and> ?src (0 + uint (2 :: 32 word) * uint (2 :: 32 word)
                     + (r div 2) * uint (2 :: 32 word) + 2 * (i div 2)) = 128
           \<and> ?src (0 + uint (2 :: 32 word) * uint (2 :: 32 word)
                     + (r div 2) * uint (2 :: 32 word) + 2 * (i div 2) + 1) = 128"
      by (auto simp: bytes_at_def)
  qed
  from YCbCr_converters_pixel_formula [of 2 2 8 2 0 "bytes_at 0 []" 0 ?src 0]
  obtain d where d: "FormatConvertorNV12_convert 0 (bytes_at 0 []) 0 8 ?src 0 2 2 2 = Some (True, d)"
    and w: "(\<forall>r i. 0 \<le> r \<and> r < uint (2 :: 32 word) \<and> 0 \<le> i \<and> i < uint (2 :: 32 word) \<longrightarrow>
             ?src (0 + r * uint (2 :: 32 word) + i) = 235
           \<and> ?src (0 + uint (2 :: 32 word) * uint (2 :: 32 word)
                     + (r div 2) * uint (2 :: 32 word) + 2 * (i div 2)) = 128
           \<and> ?src (0 + uint (2 :: 32 word) * uint (2 :: 32 word)
                     + (r div 2) * uint (2 :: 32 word) + 2 * (i div 2) + 1) = 128)
          \<longrightarrow> (\<forall>r i. 0 \<le> r \<and> r < uint (2 :: 32 word) \<and> 0 \<le> i \<and> i < uint (2 :: 32 word) \<longrightarrow>
                 pixel_rgb (read_quad d (0 + r * uint (8 :: 32 word) + 4 * i)) = (255, 255, 255))"
    by auto
  from w u have a: "\<And>r i. 0 \<le> r \<and> r < uint (2 :: 32 word) \<and> 0 \<le> i \<and> i < uint (2 :: 32 word) \<Longrightarrow>
                 pixel_rgb (read_quad d (0 + r * uint (8 :: 32 word) + 4 * i)) = (255, 255, 255)"
    by blast
  show "\<exists>d. FormatConvertorNV12_convert 0 (bytes_at 0 []) 0 8 ?src 0 2 2 2 = Some (True, d)
        \<and> pixel_rgb (read_quad d 0) = (255, 255, 255) \<and> pixel_rgb (read_quad d 4) = (255, 255, 255)
        \<and> pixel_rgb (read_quad d 8) = (255, 255, 255) \<and> pixel_rgb (read_quad d 12) = (255, 255, 255)"
    using d a [of 0 0] a [of 0 1] a [of 1 0] a [of 1 1] by simp
qed

text \<open>
  C9, as stated: the 4-byte group would be read in the memory order U, Y0, V, Y1.  For the
  group 128, 235, 128, 235 that reading gives the first pixel luma 235 with chroma
  (128, 128), which is white.  The converter takes the first byte as luma and the second
  as U: the pixel is the conversion of luma 128 with chroma (235, 235), which is
  (255, 2, 255).
\<close>

theorem YUY2_first_byte_is_luma_counterexample:
  "pixel_at (FormatConvertorYUY2_convert 0 (bytes_at 0 []) 0 8 (bytes_at 0 [128, 235, 128, 235]) 0 4 2 1) 0
     = Some (ConvertYCrCbToRGB 0 128 235 235)
   \<and> pixel_rgb (ConvertYCrCbToRGB 0 128 235 235) = (255, 2, 255)
   \<and> pixel_rgb (ConvertYCrCbToRGB 0 235 128 128) = (255, 255, 255)
   \<and> pixel_at (FormatConvertorYUY2_convert 0 (bytes_at 0 []) 0 8 (bytes_at 0 [128, 235, 128, 235]) 0 4 2 1) 0
     \<noteq> Some (ConvertYCrCbToRGB 0 235 128 128)"
  by (simp add: pixel_at_def FormatConvertorYUY2_convert_def YUY2_rows.simps YUY2_row.simps Let_def
        bytes_at_def read_quad_def write_quad_def ConvertYCrCbToRGB_def Clip_def pixel_rgb_def)

text \<open>
  C9, amended: the packed 4:2:2 converter reads each 4-byte group of a source scanline in
  the memory order Y0, U, Y1, V (the YUY2 layout; "U0 Y0 V0 Y1" in the source's comment
  is the two little-endian 16-bit words written high byte first).  The two pixels of
  group \<open>k\<close> of row \<open>r\<close> are the conversions of byte \<open>4 k\<close> and of byte \<open>4 k + 2\<close>,
  each with the shared chroma pair U = byte \<open>4 k + 1\<close>, V = byte \<open>4 k + 3\<close>.
\<close>

theorem YUY2_byte_order:
  fixes width height srcStride destStride :: "32 word"
  assumes ew: "even (uint width)" and ds: "4 * uint width \<le> uint destStride"
  shows "\<exists>d. FormatConvertorYUY2_convert resv dst destination destStride src source srcStride width height
               = Some (True, d)
            \<and> (\<forall>r k. 0 \<le> r \<and> r < uint height \<and> 0 \<le> k \<and> 2 * k < uint width \<longrightarrow>
                   read_quad d (destination + r * uint destStride + 8 * k)
                     = ConvertYCrCbToRGB resv
                         (uint (src (source + r * uint srcStride + 4 * k)))
                         (uint (src (source + r * uint srcStride + 4 * k + 3)))
                         (uint (src (source + r * uint srcStride + 4 * k + 1)))
                 \<and> read_quad d (destination + r * uint destStride + 8 * k + 4)
                     = ConvertYCrCbToRGB resv
                         (uint (src (source + r * uint srcStride + 4 * k + 2)))
                         (uint (src (source + r * uint srcStride + 4 * k + 3)))
                         (uint (src (source + r * uint srcStride + 4 * k + 1))))"
proof -
  obtain d where d: "FormatConvertorYUY2_convert resv dst destination destStride src source srcStride
                       width height = Some (True, d)"
    and pix: "\<And>r i. 0 \<le> r \<and> r < uint height \<and> 0 \<le> i \<and> i < uint width \<Longrightarrow>
                read_quad d (destination + r * uint destStride + 4 * i)
                  = YUY2_pixel resv src (source + r * uint srcStride) i"
    using YUY2_convert_pixels [OF ew ds, of resv dst destination src source srcStride height] by blast
  have "read_quad d (destination + r * uint destStride + 8 * k)
          = ConvertYCrCbToRGB resv
              (uint (src (source + r * uint srcStride + 4 * k)))
              (uint (src (source + r * uint srcStride + 4 * k + 3)))
              (uint (src (source + r * uint srcStride + 4 * k + 1)))
      \<and> read_quad d (destination + r * uint destStride + 8 * k + 4)
          = ConvertYCrCbToRGB resv
              (uint (src (source + r * uint srcStride + 4 * k + 2)))
              (uint (src (source + r * uint srcStride + 4 * k + 3)))
              (uint (src (source + r * uint srcStride + 4 * k + 1)))"
    if rk: "0 \<le> r \<and> r < uint height \<and> 0 \<le> k \<and> 2 * k < uint width" for r k
  proof -
    have k1: "2 * k + 1 < uint width" using rk ew by presburger
    have e0: "destination + r * uint destStride + 4 * (2 * k) = destination + r * uint destStride + 8 * k"
      and e1: "destination + r * uint destStride + 4 * (2 * k + 1)
                 = destination + r * uint destStride + 8 * k + 4"
      by simp_all
    have h0: "(2 * k) div 2 = k" and h1: "(2 * k + 1) div 2 = k" by simp_all
    have p0: "read_quad d (destination + r * uint destStride + 8 * k)
                = YUY2_pixel resv src (source + r * uint srcStride) (2 * k)"
      using pix [of r "2 * k"] rk unfolding e0 by simp
    have p1: "read_quad d (destination + r * uint destStride + 8 * k + 4)
                = YUY2_pixel resv src (source + r * uint srcStride) (2 * k + 1)"
      using pix [of r "2 * k + 1"] rk k1 unfolding e1 by simp
    show ?thesis
      unfolding p0 p1 YUY2_pixel_def h0 h1 by (simp add: algebra_simps)
  qed
  then show ?thesis using d by blast
qed

text \<open>C9 (amended) at the one-group frame 128, 235, 16, 90.\<close>

theorem YUY2_byte_order_witness:
  "\<exists>d. FormatConvertorYUY2_convert 0 (bytes_at 0 []) 0 8 (bytes_at 0 [128, 235, 16, 90]) 0 4 2 1
          = Some (True, d)
      \<and> read_quad d 0 = ConvertYCrCbToRGB 0 128 90 235
      \<and> read_quad d 4 = ConvertYCrCbToRGB 0 16 90 235"
proof -
  let ?src = "bytes_at 0 [128, 235, 16, 90]"
  from YUY2_byte_order [of 2 8 0 "bytes_at 0 []" 0 ?src 0 4 1]
  obtain d where d: "FormatConvertorYUY2_convert 0 (bytes_at 0 []) 0 8 ?src 0 4 2 1 = Some (True, d)"
    and a: "\<And>r k. 0 \<le> r \<and> r < uint (1 :: 32 word) \<and> 0 \<le> k \<and> 2 * k < uint (2 :: 32 word) \<Longrightarrow>
                   read_quad d (0 + r * uint (8 :: 32 word) + 8 * k)
                     = ConvertYCrCbToRGB 0
                         (uint (?src (0 + r * uint (4 :: 32 word) + 4 * k)))
                         (uint (?src (0 + r * uint (4 :: 32 word) + 4 * k + 3)))
                         (uint (?src (0 + r * uint (4 :: 32 word) + 4 * k + 1)))
                 \<and> read_quad d (0 + r * uint (8 :: 32 word) + 8 * k + 4)
                     = ConvertYCrCbToRGB 0
                         (uint (?src (0 + r * uint (4 :: 32 word) + 4 * k + 2)))
                         (uint (?src (0 + r * uint (4 :: 32 word) + 4 * k + 3)))
                         (uint (?src (0 + r * uint (4 :: 32 word) + 4 * k + 1)))"
    by auto
  show ?thesis using d a [of 0 0] by (simp add: bytes_at_def)
qed

text \<open>
  With \<open>width = 2^32 - 1\<close> the even counter of the pixel-pair loop is never at or above
  \<open>width\<close>, wraps to 0 and starts again: a frame of one row or more is never finished.
\<close>

lemma YUY2_convert_max_width:
  "FormatConvertorYUY2_convert resv dst destination destStride src source srcStride (- 1) 1 = None"
proof -
  have "YUY2_row resv src source destination (- 1) 0 dst = None"
  proof (cases "YUY2_row resv src source destination (- 1) 0 dst")
    case (Some d)
    from YUY2_row_max_diverges [OF this] show ?thesis by simp
  qed simp
  then show ?thesis by (simp add: FormatConvertorYUY2_convert_def YUY2_rows.simps)
qed

text \<open>
  C10, as stated: the packed 4:2:2 converter would return \<open>true\<close> for every width and
  height.  For width \<open>2^32 - 1\<close> and height 1 it does not return.
\<close>

theorem YUY2_convert_never_returns_counterexample:
  "FormatConvertorYUY2_convert 0 (bytes_at 0 []) 0 0 (bytes_at 0 []) 0 0 4294967295 1 = None"
proof -
  have m: "(4294967295 :: 32 word) = - 1" by simp
  show ?thesis unfolding m by (rule YUY2_convert_max_width)
qed

text \<open>
  C10, amended: for every input buffer and every stride, the 24-bit RGB converter returns
  \<open>true\<close> for every width and height, the packed 4:2:2 converter for every width other
  than \<open>2^32 - 1\<close>, and the planar 4:2:0 converter for every width and height other than
  \<open>2^32 - 1\<close>; the 32-bit RGB converter returns whether the bulk-copy primitive returned
  \<open>S_OK\<close>; so a \<open>false\<close> result of the conversion step implies that the converter is the
  32-bit RGB one.
\<close>

theorem converters_return_value:
  "fst (FormatConvertorRGB24_convert dst destination destStride src source srcStride width height) = True
   \<and> (width \<noteq> - 1 \<longrightarrow>
        (\<exists>d. FormatConvertorYUY2_convert resv dst destination destStride src source srcStride width height
               = Some (True, d)))
   \<and> (width \<noteq> - 1 \<and> height \<noteq> - 1 \<longrightarrow>
        (\<exists>d. FormatConvertorNV12_convert resv dst destination destStride src source srcStride width height
               = Some (True, d)))
   \<and> fst (FormatConvertorRGB32_convert MFCopyImage dst destination destStride src source srcStride width height)
       = (fst (MFCopyImage dst destination destStride src source srcStride (width * 4) height) = 0)
   \<and> (\<forall>this d. convert this MFCopyImage resv dst destination destStride src source srcStride width height
                   = Some (False, d) \<longrightarrow> this = FormatConvertorRGB32)"
proof (intro conjI allI impI)
  show "fst (FormatConvertorRGB24_convert dst destination destStride src source srcStride width height) = True"
    by (simp add: FormatConvertorRGB24_convert_def)
next
  assume "width \<noteq> - 1"
  then show "\<exists>d. FormatConvertorYUY2_convert resv dst destination destStride src source srcStride width height
               = Some (True, d)"
    by (rule YUY2_convert_returns)
next
  assume "width \<noteq> - 1 \<and> height \<noteq> - 1"
  then show "\<exists>d. FormatConvertorNV12_convert resv dst destination destStride src source srcStride width height
               = Some (True, d)"
    by (simp add: NV12_convert_returns)
next
  show "fst (FormatConvertorRGB32_convert MFCopyImage dst destination destStride src source srcStride width height)
       = (fst (MFCopyImage dst destination destStride src source srcStride (width * 4) height) = 0)"
    by (simp add: FormatConvertorRGB32_convert_def case_prod_beta)
next
  fix this d
  assume "convert this MFCopyImage resv dst destination destStride src source srcStride width height
            = Some (False, d)"
  then show "this = FormatConvertorRGB32"
    by (cases this)
       (auto simp: convert_def FormatConvertorRGB24_convert_def FormatConvertorYUY2_convert_def
          FormatConvertorNV12_convert_def Let_def split: option.splits)
qed

text \<open>
  C10 (amended) at concrete inputs: a frame of odd width 3 is converted by both YCbCr
  converters, and the 32-bit RGB converter returns \<open>false\<close> when the bulk copy reports
  \<open>E_INVALIDARG\<close>.
\<close>

theorem converters_return_value_witness:
  "(\<exists>d. FormatConvertorYUY2_convert 0 (bytes_at 0 []) 0 16 (bytes_at 0 [128, 235, 16, 90]) 0 8 3 1
          = Some (True, d))
   \<and> (\<exists>d. FormatConvertorNV12_convert 0 (bytes_at 0 []) 0 16 (bytes_at 0 [128, 235, 16, 90]) 0 4 3 1
          = Some (True, d))
   \<and> convert FormatConvertorRGB32 (copy_reporting 0x80070057) 0 (bytes_at 0 []) 0 8
        (bytes_at 0 [1, 2, 3, 4]) 0 4 1 1 = Some (False, bytes_at 0 [])"
proof -
  have c: "convert FormatConvertorRGB32 (copy_reporting 0x80070057) 0 (bytes_at 0 []) 0 8
        (bytes_at 0 [1, 2, 3, 4]) 0 4 1 1 = Some (False, bytes_at 0 [])"
    by (simp add: convert_def FormatConvertorRGB32_convert_def copy_reporting_def)
  have "(3 :: 32 word) \<noteq> - 1" "(1 :: 32 word) \<noteq> - 1" by simp_all
  then show ?thesis
    using c converters_return_value [of "bytes_at 0 []" 0 16 "bytes_at 0 [128, 235, 16, 90]" 0 8 3 1 0 "copy_reporting 0"]
      converters_return_value [of "bytes_at 0 []" 0 16 "bytes_at 0 [128, 235, 16, 90]" 0 4 3 1 0 "copy_reporting 0"]
    by blast
qed

subsection \<open>Properties of the buffer lock and the presentation device\<close>

lemma recreation_calls_no_frame: "set cs \<subseteq> recreation_calls \<Longrightarrow> filter is_frame_call cs = []"
  by (induction cs) (auto simp: recreation_calls_def)

lemma recreation_calls_no_reset: "set cs \<subseteq> recreation_calls \<Longrightarrow> Device_Reset \<notin> set cs"
  by (auto simp: recreation_calls_def)

lemma log_fields [simp]:
  "calls (log cs s) = calls s @ cs" "mDevice (log cs s) = mDevice s"
  "mSwapChain (log cs s) = mSwapChain s" "mFormat (log cs s) = mFormat s"
  "mRGB32Converter (log cs s) = mRGB32Converter s" "mD3D (log cs s) = mD3D s"
  "mWindow (log cs s) = mWindow s" "mDestRect (log cs s) = mDestRect s"
  "mWidth (log cs s) = mWidth s" "mHeight (log cs s) = mHeight s"
  "mDefaultStride (log cs s) = mDefaultStride s" "mAspect (log cs s) = mAspect s"
  by (simp_all add: log_def)

lemma DestroyDevice_eq:
  "DestroyDevice s =
     s \<lparr> mD3D := None, mDevice := None, mSwapChain := None, calls := calls s @ release_calls s \<rparr>"
  by (cases "mSwapChain s"; cases "mDevice s"; cases "mD3D s")
     (simp_all add: DestroyDevice_def SafeRelease_def log_def release_calls_def Let_def)

lemma createDevice_eq:
  assumes "mDevice s = None" and "mD3D s = None"
  shows "createDevice env hwnd s =
           (device_created env,
            s \<lparr> mWindow := (if device_created env then hwnd else mWindow s),
                mD3D := Direct3DCreate9_result env,
                mDevice := (if device_created env then Some (CreateDevice_device env) else None),
                calls := calls s @ device_calls env \<rparr>)"
  using assms
  by (cases s)
     (auto simp: createDevice_def log_def device_created_def device_calls_def Let_def)

lemma createSwapChains_eq:
  assumes "mDevice s \<noteq> None" and "mSwapChain s = None"
  shows "createSwapChains env s =
           Returns (CreateAdditionalSwapChain_hr env = 0,
                    s \<lparr> mSwapChain := (if FAILED (CreateAdditionalSwapChain_hr env) then None
                                        else Some (CreateAdditionalSwapChain_chain env)),
                        calls := calls s @ [Device_CreateAdditionalSwapChain] \<rparr>)"
  using assms
  by (cases s) (auto simp: createSwapChains_def SafeRelease_def log_def Let_def)

lemma UpdateDestinationRect_eq:
  "UpdateDestinationRect env s =
     s \<lparr> mDestRect := fitted_rect env s, calls := calls s @ [GetClientRect] \<rparr>"
  by (simp add: UpdateDestinationRect_def fitted_rect_def log_def Let_def)

lemma resetDevice_keep:
  assumes "mDevice s \<noteq> None" and "\<not> FAILED (Reset_hr env)"
    and "mSwapChain s \<noteq> None \<or> mFormat s = D3DFMT_UNKNOWN"
  shows "resetDevice env s = Returns (True, log [Device_Reset] s)"
  using assms by (auto simp: resetDevice_def Let_def)


text \<open>
  \<open>resetDevice\<close> on an existing device whose \<open>Reset\<close> fails: what exists is released,
  and the Direct3D object, the device and (with a format set) the swap chain are created
  anew, as far as the platform lets them.
\<close>

lemma resetDevice_rebuild:
  assumes dev: "mDevice s \<noteq> None" and fail: "FAILED (Reset_hr env)"
  shows "resetDevice env s =
           Returns (device_created env
                      \<and> (mFormat s = D3DFMT_UNKNOWN \<or> CreateAdditionalSwapChain_hr env = 0),
                    s \<lparr> mD3D := Direct3DCreate9_result env,
                        mDevice := (if device_created env then Some (CreateDevice_device env) else None),
                        mSwapChain :=
                          (if device_created env \<and> mFormat s \<noteq> D3DFMT_UNKNOWN
                              \<and> \<not> FAILED (CreateAdditionalSwapChain_hr env)
                           then Some (CreateAdditionalSwapChain_chain env) else None),
                        mDestRect :=
                          (if device_created env \<and> mFormat s \<noteq> D3DFMT_UNKNOWN
                              \<and> CreateAdditionalSwapChain_hr env = 0
                           then fitted_rect env s else mDestRect s),
                        calls := calls s @ [Device_Reset] @ release_calls s @ device_calls env
                                 @ (if device_created env \<and> mFormat s \<noteq> D3DFMT_UNKNOWN
                                    then chain_calls env else []) \<rparr>)"
proof -
  define s1 where "s1 = DestroyDevice (log [Device_Reset] s)"
  have s1: "s1 = s \<lparr> mD3D := None, mDevice := None, mSwapChain := None,
                     calls := calls s @ [Device_Reset] @ release_calls s \<rparr>"
    by (simp add: s1_def DestroyDevice_eq release_calls_def log_def)
  have f1: "mDevice s1 = None" "mD3D s1 = None" by (simp_all add: s1)
  define s2 where "s2 = snd (createDevice env (mWindow s1) s1)"
  have c: "createDevice env (mWindow s1) s1 = (device_created env, s2)"
    by (simp add: s2_def createDevice_eq [OF f1])
  have s2: "s2 = s \<lparr> mD3D := Direct3DCreate9_result env,
                     mDevice := (if device_created env then Some (CreateDevice_device env) else None),
                     mSwapChain := None,
                     calls := calls s @ [Device_Reset] @ release_calls s @ device_calls env \<rparr>"
  proof -
    have "s2 = s1 \<lparr> mWindow := mWindow s1, mD3D := Direct3DCreate9_result env,
                      mDevice := (if device_created env then Some (CreateDevice_device env) else None),
                      calls := calls s1 @ device_calls env \<rparr>"
      by (simp add: s2_def createDevice_eq [OF f1])
    then show ?thesis by (cases s) (simp add: s1)
  qed
  have u: "resetDevice env s =
      (if \<not> device_created env then Returns (False, s2)
       else if mSwapChain s2 = None \<and> mFormat s2 \<noteq> D3DFMT_UNKNOWN
            then (case createSwapChains env s2 of
                    Returns (ok, s) \<Rightarrow>
                      if \<not> ok then Returns (False, s) else Returns (True, UpdateDestinationRect env s)
                  | NullDereference \<Rightarrow> NullDereference
                  | NeverReturns \<Rightarrow> NeverReturns)
            else Returns (True, s2))"
    unfolding resetDevice_def Let_def if_P [OF dev] if_P [OF fail] s1_def [symmetric]
      if_P [OF f1(1)] c
    by simp
  show ?thesis
  proof (cases "device_created env")
    case False
    then show ?thesis unfolding u by (simp add: s2)
  next
    case cr: True
    have f2: "mDevice s2 \<noteq> None" "mSwapChain s2 = None" "mFormat s2 = mFormat s"
      using cr by (simp_all add: s2)
    show ?thesis
    proof (cases "mFormat s = D3DFMT_UNKNOWN")
      case True
      then show ?thesis unfolding u using cr f2 by (simp add: s2)
    next
      case False
      then show ?thesis
        unfolding u using cr f2
        by (simp add: createSwapChains_eq [OF f2(1,2)] UpdateDestinationRect_eq)
           (cases s, simp add: s2 fitted_rect_def chain_calls_def)
    qed
  qed
qed

lemma log_log: "log a (log b s) = log (b @ a) s"
  by (simp add: log_def)

lemma log_eq_iff: "log a s = log b s \<longleftrightarrow> a = b"
  by (cases s) (simp add: log_def)

lemma convert_returns:
  assumes "this \<in> {FormatConvertorYUY2, FormatConvertorNV12} \<longrightarrow> width \<noteq> - 1 \<and> height \<noteq> - 1"
  shows "\<exists>converted d.
           convert this MFCopyImage resv dst destination destStride src source srcStride width height
             = Some (converted, d)"
proof (cases this)
  case FormatConvertorYUY2
  then have "width \<noteq> - 1" using assms by simp
  from YUY2_convert_returns [OF this, of resv dst destination destStride src source srcStride height]
  show ?thesis using FormatConvertorYUY2 by (auto simp: convert_def)
next
  case FormatConvertorNV12
  then have "width \<noteq> - 1" "height \<noteq> - 1" using assms by simp_all
  from NV12_convert_returns [OF this, of resv dst destination destStride src source srcStride]
  show ?thesis using FormatConvertorNV12 by (auto simp: convert_def)
qed (auto simp: convert_def intro: prod.exhaust)

text \<open>
  \<open>DrawFrame\<close> after the health check, where the conversion returns: the result is
  \<open>frame_succeeds\<close>, the device is unchanged but for its log, and a frame that goes
  through makes exactly the calls of \<open>frame_calls\<close>.
\<close>

lemma DrawFrame_render_frame:
  assumes chain: "mSwapChain s \<noteq> None" and dev: "mDevice s \<noteq> None"
    and conv: "mRGB32Converter s = Some c"
    and cv: "convert c (MFCopyImage_fn env) (reserved_byte env) (surface_bytes env)
               (LockRect_pBits env) (LockRect_Pitch env) (bytes pBuffer)
               (locked_scanline pBuffer) (locked_stride pBuffer s) (mWidth s) (mHeight s)
             = Some (converted, surface)"
  shows "\<exists>fs. DrawFrame_render env pBuffer s
                = Returns (frame_succeeds env pBuffer, log (SwapChain_GetBackBuffer # fs) s)
             \<and> Device_Reset \<notin> set fs
             \<and> (frame_succeeds env pBuffer \<longrightarrow>
                  SwapChain_GetBackBuffer # fs = frame_calls pBuffer c converted)"
proof -
  obtain ch d where v: "mSwapChain s = Some ch" "mDevice s = Some d"
    using chain dev by auto
  show ?thesis
  proof (cases "supports_2D pBuffer")
    case True
    then show ?thesis
      using v conv cv
      by (simp add: DrawFrame_render_def DrawFrame_present_def LockBuffer_def VideoBufferLock_new_def
            unlock_def getStride_def frame_succeeds_def frame_calls_def locked_scanline_def
            locked_stride_def Let_def log_log log_eq_iff)
  next
    case False
    then show ?thesis
      using v conv cv
      by (simp add: DrawFrame_render_def DrawFrame_present_def LockBuffer_def VideoBufferLock_new_def
            unlock_def getStride_def frame_succeeds_def frame_calls_def locked_scanline_def
            locked_stride_def Let_def log_log log_eq_iff)
  qed
qed

lemma DrawFrame_healthy:
  assumes "mRGB32Converter s \<noteq> None" "mDevice s \<noteq> None" "mSwapChain s \<noteq> None"
    and "TestCooperativeLevel_result env = D3D_OK"
  shows "DrawFrame env pBuffer s = DrawFrame_render env pBuffer (log [Device_TestCooperativeLevel] s)"
  using assms by (auto simp: DrawFrame_def TestCooperativeLevel_def Let_def)

text \<open>
  A frame on a healthy device: after the health check the invocation returns
  \<open>frame_succeeds\<close>, and its calls are \<open>frame_calls\<close> when the frame goes through.
\<close>

lemma DrawFrame_healthy_frame:
  assumes conv: "mRGB32Converter s = Some converter" and dev: "mDevice s \<noteq> None"
    and chain: "mSwapChain s \<noteq> None"
    and dims: "converter \<in> {FormatConvertorYUY2, FormatConvertorNV12} \<longrightarrow>
                 mWidth s \<noteq> - 1 \<and> mHeight s \<noteq> - 1"
    and healthy: "TestCooperativeLevel_result env = D3D_OK"
  shows "\<exists>fs converted surface.
           DrawFrame env pBuffer s
             = Returns (frame_succeeds env pBuffer,
                        log (Device_TestCooperativeLevel # SwapChain_GetBackBuffer # fs) s)
         \<and> Device_Reset \<notin> set fs
         \<and> convert converter (MFCopyImage_fn env) (reserved_byte env) (surface_bytes env)
              (LockRect_pBits env) (LockRect_Pitch env) (bytes pBuffer)
              (locked_scanline pBuffer) (locked_stride pBuffer s) (mWidth s) (mHeight s)
            = Some (converted, surface)
         \<and> (frame_succeeds env pBuffer \<longrightarrow>
              SwapChain_GetBackBuffer # fs = frame_calls pBuffer converter converted)"
proof -
  define s0 where "s0 = log [Device_TestCooperativeLevel] s"
  obtain converted surface where
    cv: "convert converter (MFCopyImage_fn env) (reserved_byte env) (surface_bytes env)
           (LockRect_pBits env) (LockRect_Pitch env) (bytes pBuffer)
           (locked_scanline pBuffer) (locked_stride pBuffer s) (mWidth s) (mHeight s)
         = Some (converted, surface)"
    using convert_returns [OF dims] by blast
  have f0: "mSwapChain s0 \<noteq> None" "mDevice s0 \<noteq> None" "mRGB32Converter s0 = Some converter"
    using conv dev chain by (simp_all add: s0_def)
  have cv0: "convert converter (MFCopyImage_fn env) (reserved_byte env) (surface_bytes env)
           (LockRect_pBits env) (LockRect_Pitch env) (bytes pBuffer)
           (locked_scanline pBuffer) (locked_stride pBuffer s0) (mWidth s0) (mHeight s0)
         = Some (converted, surface)"
  proof -
    have "locked_stride pBuffer s0 = locked_stride pBuffer s" "mWidth s0 = mWidth s"
      "mHeight s0 = mHeight s"
      by (simp_all add: s0_def locked_stride_def)
    then show ?thesis using cv by (simp only:)
  qed
  have df: "DrawFrame env pBuffer s = DrawFrame_render env pBuffer s0"
    unfolding s0_def using conv dev chain healthy by (intro DrawFrame_healthy) simp_all
  from DrawFrame_render_frame [OF f0 cv0] obtain fs where
    "DrawFrame_render env pBuffer s0
       = Returns (frame_succeeds env pBuffer, log (SwapChain_GetBackBuffer # fs) s0)"
    "Device_Reset \<notin> set fs"
    "frame_succeeds env pBuffer \<longrightarrow>
       SwapChain_GetBackBuffer # fs = frame_calls pBuffer converter converted"
    by blast
  then show ?thesis
    using cv by (auto simp: df s0_def log_log)
qed

lemma release_calls_recreation: "set (release_calls s) \<subseteq> recreation_calls"
  by (simp add: release_calls_def recreation_calls_def)

lemma device_calls_recreation: "set (device_calls env) \<subseteq> recreation_calls"
  by (simp add: device_calls_def recreation_calls_def)

lemma chain_calls_recreation: "set (chain_calls env) \<subseteq> recreation_calls"
  by (auto simp: chain_calls_def recreation_calls_def)

lemma FAILED_0: "\<not> FAILED 0"
  by (simp add: FAILED_def)

lemma resetDevice_lost:
  assumes dev: "mDevice s \<noteq> None" and chain: "mSwapChain s \<noteq> None"
    and fmt: "mFormat s \<noteq> D3DFMT_UNKNOWN"
  shows "\<exists>s' cs.
           resetDevice env s
             = Returns (\<not> FAILED (Reset_hr env)
                          \<or> device_created env \<and> CreateAdditionalSwapChain_hr env = 0, s')
         \<and> calls s' = calls s @ [Device_Reset] @ cs \<and> set cs \<subseteq> recreation_calls
         \<and> mRGB32Converter s' = mRGB32Converter s \<and> mWidth s' = mWidth s
         \<and> mHeight s' = mHeight s \<and> mDefaultStride s' = mDefaultStride s
         \<and> (\<not> FAILED (Reset_hr env) \<or> device_created env \<and> CreateAdditionalSwapChain_hr env = 0
                \<longrightarrow> mDevice s' \<noteq> None \<and> mSwapChain s' \<noteq> None)"
proof (cases "FAILED (Reset_hr env)")
  case False
  have "resetDevice env s = Returns (True, log [Device_Reset] s)"
    using resetDevice_keep [OF dev False] chain by simp
  then show ?thesis
    using False dev chain
    by (intro exI [of _ "log [Device_Reset] s"] exI [of _ "[]"]) simp
next
  case True
  define cs where "cs = release_calls s @ device_calls env
                        @ (if device_created env \<and> mFormat s \<noteq> D3DFMT_UNKNOWN
                           then chain_calls env else [])"
  have sub: "set cs \<subseteq> recreation_calls"
    using release_calls_recreation [of s] device_calls_recreation [of env]
      chain_calls_recreation [of env]
    by (auto simp: cs_def)
  let ?S = "s \<lparr> mD3D := Direct3DCreate9_result env,
                   mDevice := (if device_created env then Some (CreateDevice_device env) else None),
                   mSwapChain :=
                     (if device_created env \<and> mFormat s \<noteq> D3DFMT_UNKNOWN
                         \<and> \<not> FAILED (CreateAdditionalSwapChain_hr env)
                      then Some (CreateAdditionalSwapChain_chain env) else None),
                   mDestRect :=
                     (if device_created env \<and> mFormat s \<noteq> D3DFMT_UNKNOWN
                         \<and> CreateAdditionalSwapChain_hr env = 0
                      then fitted_rect env s else mDestRect s),
                   calls := calls s @ [Device_Reset] @ cs \<rparr>"
  have r: "resetDevice env s
             = Returns (device_created env \<and> CreateAdditionalSwapChain_hr env = 0, ?S)"
    unfolding resetDevice_rebuild [OF dev True] cs_def using fmt by simp
  have p: "device_created env \<and> CreateAdditionalSwapChain_hr env = 0 \<longrightarrow>
             mDevice ?S \<noteq> None \<and> mSwapChain ?S \<noteq> None"
    using fmt FAILED_0 by auto
  show ?thesis
    unfolding r using True sub p
    by (intro exI [of _ ?S] exI [of _ cs]) simp
qed


text \<open>
  C2: for a buffer without 2-D access, \<open>LockBuffer\<close> with a negative stride \<open>s\<close> and
  height \<open>h\<close> should return the locked base plus \<open>|s| * (h - 1)\<close>, and \<open>getStride\<close>
  should then return \<open>s\<close>.  The code does the second and not the first: \<open>stride\<close> is an
  unsigned parameter, the test \<open>stride < 0\<close> never holds, and the pointer returned is the
  base itself for every stride.
\<close>

theorem LockBuffer_linear_ignores_orientation:
  assumes "\<not> m2DBuffer this" and "\<not> FAILED (Lock_hr pBuffer)"
  shows "fst (LockBuffer pBuffer stride height this) = Lock_data pBuffer
       \<and> getStride (fst (snd (LockBuffer pBuffer stride height this))) = sint stride"
  using assms by (simp add: LockBuffer_def getStride_def Let_def)

text \<open>
  C2 at stride \<open>-1920\<close> and height 1080: the pointer returned is the base 4096, not
  \<open>4096 + 1920 * 1079\<close>, and the stride in effect is \<open>-1920\<close>.
\<close>

theorem LockBuffer_linear_ignores_orientation_witness:
  "fst (LockBuffer linear_buffer (- 1920) 1080 (VideoBufferLock_new linear_buffer)) = 4096
   \<and> (4096 :: int) \<noteq> 4096 + 1920 * (1080 - 1)
   \<and> getStride (fst (snd (LockBuffer linear_buffer (- 1920) 1080 (VideoBufferLock_new linear_buffer))))
       = - 1920"
  using LockBuffer_linear_ignores_orientation
          [of "VideoBufferLock_new linear_buffer" linear_buffer "- 1920" 1080]
  by (simp add: VideoBufferLock_new_def linear_buffer_def FAILED_def)

text \<open>
  C3: a failure of any sub-step of \<open>DrawFrame\<close>, a conversion that returns \<open>false\<close>
  included, should abort the frame without presenting.  The code checks every other
  sub-step and drops the value \<open>convert\<close> returns: on a ready and healthy device whose
  other calls all succeed, a 32-bit RGB conversion whose bulk copy reports a failure is
  followed by \<open>UnlockRect\<close>, \<open>ColorFill\<close>, \<open>StretchRect\<close> and \<open>Present\<close>, and
  \<open>DrawFrame\<close> returns \<open>true\<close>.
\<close>

theorem DrawFrame_ignores_conversion_result:
  assumes "mRGB32Converter s = Some FormatConvertorRGB32"
    and "mDevice s \<noteq> None" and "mSwapChain s \<noteq> None"
    and "TestCooperativeLevel_result env = D3D_OK"
    and "\<not> FAILED (SwapChain_GetBackBuffer_hr env)" and "\<not> FAILED (LockRect_hr env)"
    and "supports_2D pBuffer = False" and "\<not> FAILED (Lock_hr pBuffer)" and "Lock_data pBuffer \<noteq> 0"
    and "fst (MFCopyImage_fn env (surface_bytes env) (LockRect_pBits env) (LockRect_Pitch env)
                (bytes pBuffer) (Lock_data pBuffer) (mDefaultStride s) (mWidth s * 4) (mHeight s)) \<noteq> 0"
    and "\<not> FAILED (UnlockRect_hr env)" and "\<not> FAILED (Device_GetBackBuffer_hr env)"
    and "\<not> FAILED (ColorFill_hr env)" and "\<not> FAILED (StretchRect_hr env)"
    and "Present_hr env = 0"
  shows "DrawFrame env pBuffer s =
         Returns (True,
           log [Device_TestCooperativeLevel, SwapChain_GetBackBuffer, Surface_LockRect, Buffer_Lock,
                Convert FormatConvertorRGB32 False, Surface_UnlockRect, Device_GetBackBuffer,
                Device_ColorFill, Device_StretchRect, Device_Present, Buffer_Unlock] s)"
  using assms
  by (auto simp: DrawFrame_def TestCooperativeLevel_def DrawFrame_render_def DrawFrame_present_def
        LockBuffer_def VideoBufferLock_new_def unlock_def getStride_def convert_def
        FormatConvertorRGB32_convert_def log_def Let_def split: prod.splits)

text \<open>C3 at a concrete input: the bulk copy reports \<open>E_INVALIDARG\<close>.\<close>

theorem DrawFrame_ignores_conversion_result_witness:
  "DrawFrame (healthy_platform \<lparr> MFCopyImage_fn := copy_reporting 0x80070057 \<rparr>) linear_buffer ready_device
   = Returns (True,
       ready_device \<lparr> calls :=
         [Device_TestCooperativeLevel, SwapChain_GetBackBuffer, Surface_LockRect, Buffer_Lock,
          Convert FormatConvertorRGB32 False, Surface_UnlockRect, Device_GetBackBuffer,
          Device_ColorFill, Device_StretchRect, Device_Present, Buffer_Unlock] \<rparr>)"
  using DrawFrame_ignores_conversion_result
          [of ready_device "healthy_platform \<lparr> MFCopyImage_fn := copy_reporting 0x80070057 \<rparr>" linear_buffer]
  by (simp add: ready_device_def healthy_platform_def linear_buffer_def copy_reporting_def
        FAILED_def log_def)

text \<open>
  C4: take a \<open>DrawFrame\<close> invocation that reaches the health check (a converter, a device
  and a swap chain exist) on a device as \<open>setVideoType\<close> leaves it (the format is set
  together with the converter, and a swap chain is only ever created with a format set),
  and let the device report lost or not reset.  For the two subsampled formats the frame
  is not \<open>2^32 - 1\<close> wide or high (the specification has both dimensions even there), so
  that the conversion returns.

  Then \<open>resetDevice\<close> runs once and returns.  It issues exactly one \<open>Reset\<close>, followed at
  most by calls that release and recreate the device, none of which locks, converts,
  draws or presents.  It succeeds when the \<open>Reset\<close> succeeds, or when the Direct3D
  object, the device and the swap chain can be created anew.

  If it succeeds, the device and the swap chain exist, and the same invocation goes on
  from the state the reset left as an invocation on a healthy device does (lemma
  \<open>DrawFrame_healthy_frame\<close>): it returns, its calls start with the lock of the
  swap-chain surface and contain no other \<open>Reset\<close>, its result is \<open>frame_succeeds\<close>, and
  when that holds its calls are exactly \<open>frame_calls\<close>: lock the surface, lock the buffer,
  convert from the locked pointer with the stride in effect, unlock the surface, fill,
  stretch and present, unlock the buffer.

  If it fails, the invocation returns \<open>false\<close> in the state the reset left, without any
  further call.  Whenever the invocation returns, its log holds one more \<open>Reset\<close> than
  before.
\<close>

theorem DrawFrame_device_lost:
  assumes conv: "mRGB32Converter s = Some converter" and dev: "mDevice s \<noteq> None"
    and chain: "mSwapChain s \<noteq> None" and fmt: "mFormat s \<noteq> D3DFMT_UNKNOWN"
    and dims: "converter \<in> {FormatConvertorYUY2, FormatConvertorNV12} \<longrightarrow>
                 mWidth s \<noteq> - 1 \<and> mHeight s \<noteq> - 1"
    and lost: "TestCooperativeLevel_result env \<in> {D3DERR_DEVICELOST, D3DERR_DEVICENOTRESET}"
  shows "\<exists>ok s1 cs.
           resetDevice env (log [Device_TestCooperativeLevel] s) = Returns (ok, s1)
         \<and> ok = (\<not> FAILED (Reset_hr env)
                   \<or> device_created env \<and> CreateAdditionalSwapChain_hr env = 0)
         \<and> calls s1 = calls s @ [Device_TestCooperativeLevel, Device_Reset] @ cs
         \<and> Device_Reset \<notin> set cs \<and> filter is_frame_call cs = []
         \<and> (if ok
             then mDevice s1 \<noteq> None \<and> mSwapChain s1 \<noteq> None
                \<and> (\<exists>fs converted surface.
                      DrawFrame env pBuffer s
                        = Returns (frame_succeeds env pBuffer, log (SwapChain_GetBackBuffer # fs) s1)
                    \<and> Device_Reset \<notin> set fs
                    \<and> convert converter (MFCopyImage_fn env) (reserved_byte env) (surface_bytes env)
                         (LockRect_pBits env) (LockRect_Pitch env) (bytes pBuffer)
                         (locked_scanline pBuffer) (locked_stride pBuffer s) (mWidth s) (mHeight s)
                       = Some (converted, surface)
                    \<and> (frame_succeeds env pBuffer \<longrightarrow>
                         SwapChain_GetBackBuffer # fs = frame_calls pBuffer converter converted))
             else DrawFrame env pBuffer s = Returns (False, s1))
         \<and> (\<forall>b s'. DrawFrame env pBuffer s = Returns (b, s') \<longrightarrow>
               count_list (calls s') Device_Reset = count_list (calls s) Device_Reset + 1)"
proof -
  define s0 where "s0 = log [Device_TestCooperativeLevel] s"
  define ok where "ok \<longleftrightarrow> \<not> FAILED (Reset_hr env)
                          \<or> device_created env \<and> CreateAdditionalSwapChain_hr env = 0"
  have f0: "mDevice s0 \<noteq> None" "mSwapChain s0 \<noteq> None" "mFormat s0 \<noteq> D3DFMT_UNKNOWN"
    using dev chain fmt by (simp_all add: s0_def)
  from resetDevice_lost [OF f0, of env] obtain s1 cs where
    r: "resetDevice env s0 = Returns (ok, s1)"
    and c: "calls s1 = calls s0 @ [Device_Reset] @ cs" "set cs \<subseteq> recreation_calls"
    and f: "mRGB32Converter s1 = mRGB32Converter s0" "mWidth s1 = mWidth s0"
           "mHeight s1 = mHeight s0" "mDefaultStride s1 = mDefaultStride s0"
    and d: "ok \<longrightarrow> mDevice s1 \<noteq> None \<and> mSwapChain s1 \<noteq> None"
    unfolding ok_def by blast
  have tcl: "TestCooperativeLevel env s = resetDevice env s0"
    using dev lost by (auto simp: TestCooperativeLevel_def Let_def s0_def)
  have df: "DrawFrame env pBuffer s =
              (if ok then DrawFrame_render env pBuffer s1 else Returns (False, s1))"
    using conv dev chain by (auto simp: DrawFrame_def tcl r)
  have c1: "calls s1 = calls s @ [Device_TestCooperativeLevel, Device_Reset] @ cs"
    using c(1) by (simp add: s0_def)
  have nr: "Device_Reset \<notin> set cs" by (rule recreation_calls_no_reset [OF c(2)])
  have nf: "filter is_frame_call cs = []" by (rule recreation_calls_no_frame [OF c(2)])
  have cnt1: "count_list (calls s1) Device_Reset = count_list (calls s) Device_Reset + 1"
    using nr by (simp add: c1 count_list_0_iff)
  obtain converted surface where
    cv: "convert converter (MFCopyImage_fn env) (reserved_byte env) (surface_bytes env)
           (LockRect_pBits env) (LockRect_Pitch env) (bytes pBuffer)
           (locked_scanline pBuffer) (locked_stride pBuffer s) (mWidth s) (mHeight s)
         = Some (converted, surface)"
    using convert_returns [OF dims] by blast
  have g: "mRGB32Converter s1 = Some converter" "mWidth s1 = mWidth s" "mHeight s1 = mHeight s"
          "locked_stride pBuffer s1 = locked_stride pBuffer s"
    using f conv by (simp_all add: s0_def locked_stride_def)
  have frame: "\<exists>fs. DrawFrame env pBuffer s
                       = Returns (frame_succeeds env pBuffer, log (SwapChain_GetBackBuffer # fs) s1)
                   \<and> Device_Reset \<notin> set fs
                   \<and> (frame_succeeds env pBuffer \<longrightarrow>
                         SwapChain_GetBackBuffer # fs = frame_calls pBuffer converter converted)"
    if ok
  proof -
    have d1: "mSwapChain s1 \<noteq> None" "mDevice s1 \<noteq> None" using d that by simp_all
    have cv1: "convert converter (MFCopyImage_fn env) (reserved_byte env) (surface_bytes env)
           (LockRect_pBits env) (LockRect_Pitch env) (bytes pBuffer)
           (locked_scanline pBuffer) (locked_stride pBuffer s1) (mWidth s1) (mHeight s1)
         = Some (converted, surface)"
      using cv by (simp only: g)
    from DrawFrame_render_frame [OF d1 g(1) cv1] show ?thesis
      using that by (simp add: df)
  qed
  have cnt: "count_list (calls s') Device_Reset = count_list (calls s) Device_Reset + 1"
    if "DrawFrame env pBuffer s = Returns (b, s')" for b s'
  proof (cases ok)
    case False
    then show ?thesis using that df cnt1 by simp
  next
    case True
    from frame [OF True] obtain fs where
      "DrawFrame env pBuffer s
         = Returns (frame_succeeds env pBuffer, log (SwapChain_GetBackBuffer # fs) s1)"
      and "Device_Reset \<notin> set fs"
      by blast
    then show ?thesis using that cnt1 by (auto simp: count_list_0_iff)
  qed
  have br: "if ok
            then mDevice s1 \<noteq> None \<and> mSwapChain s1 \<noteq> None
               \<and> (\<exists>fs converted surface.
                     DrawFrame env pBuffer s
                       = Returns (frame_succeeds env pBuffer, log (SwapChain_GetBackBuffer # fs) s1)
                   \<and> Device_Reset \<notin> set fs
                   \<and> convert converter (MFCopyImage_fn env) (reserved_byte env) (surface_bytes env)
                        (LockRect_pBits env) (LockRect_Pitch env) (bytes pBuffer)
                        (locked_scanline pBuffer) (locked_stride pBuffer s) (mWidth s) (mHeight s)
                      = Some (converted, surface)
                   \<and> (frame_succeeds env pBuffer \<longrightarrow>
                        SwapChain_GetBackBuffer # fs = frame_calls pBuffer converter converted))
            else DrawFrame env pBuffer s = Returns (False, s1)"
  proof (cases ok)
    case True
    from frame [OF True] obtain fs where
      "DrawFrame env pBuffer s
         = Returns (frame_succeeds env pBuffer, log (SwapChain_GetBackBuffer # fs) s1)"
      "Device_Reset \<notin> set fs"
      "frame_succeeds env pBuffer \<longrightarrow>
         SwapChain_GetBackBuffer # fs = frame_calls pBuffer converter converted"
      by blast
    then show ?thesis using True d cv by auto
  next
    case False
    then show ?thesis using df by simp
  qed
  have okv: "ok = (\<not> FAILED (Reset_hr env)
                   \<or> device_created env \<and> CreateAdditionalSwapChain_hr env = 0)"
    by (simp add: ok_def)
  show ?thesis
    unfolding s0_def [symmetric]
    using r okv c1 nr nf br cnt
    by (intro exI [of _ ok] exI [of _ s1] exI [of _ cs]) blast
qed

text \<open>
  C4 at concrete inputs: a lost device whose \<open>Reset\<close> fails is recreated and the frame is
  locked, converted and presented, after one \<open>Reset\<close>, for a 32-bit RGB frame and for a
  packed 4:2:2 frame; when the recreation fails too, \<open>DrawFrame\<close> returns \<open>false\<close> after
  one \<open>Reset\<close> and no frame call.
\<close>

theorem DrawFrame_device_lost_witness:
  "(\<exists>s' cs converted.
       DrawFrame lost_platform linear_buffer ready_device = Returns (True, s')
     \<and> calls s' = [Device_TestCooperativeLevel, Device_Reset] @ cs
                     @ [SwapChain_GetBackBuffer, Surface_LockRect, Buffer_Lock,
                        Convert FormatConvertorRGB32 converted, Surface_UnlockRect,
                        Device_GetBackBuffer, Device_ColorFill, Device_StretchRect, Device_Present,
                        Buffer_Unlock]
     \<and> filter is_frame_call cs = []
     \<and> count_list (calls s') Device_Reset = 1)
   \<and> (\<exists>s' cs converted.
         DrawFrame lost_platform linear_buffer
           (ready_device \<lparr> mFormat := 0x32595559, mRGB32Converter := Some FormatConvertorYUY2 \<rparr>)
           = Returns (True, s')
       \<and> calls s' = [Device_TestCooperativeLevel, Device_Reset] @ cs
                       @ [SwapChain_GetBackBuffer, Surface_LockRect, Buffer_Lock,
                          Convert FormatConvertorYUY2 converted, Surface_UnlockRect,
                          Device_GetBackBuffer, Device_ColorFill, Device_StretchRect, Device_Present,
                          Buffer_Unlock]
       \<and> filter is_frame_call cs = [])
   \<and> (\<exists>s'. DrawFrame (lost_platform \<lparr> CreateDevice_hr := 0x88760868 \<rparr>) linear_buffer ready_device
              = Returns (False, s')
         \<and> count_list (calls s') Device_Reset = 1 \<and> filter is_frame_call (calls s') = [])"
proof -
  have ok: "\<not> FAILED (Reset_hr lost_platform)
            \<or> device_created lost_platform \<and> CreateAdditionalSwapChain_hr lost_platform = 0"
    by (simp add: lost_platform_def healthy_platform_def device_created_def FAILED_def)
  have fr: "frame_succeeds lost_platform linear_buffer"
    by (simp add: frame_succeeds_def locked_scanline_def lost_platform_def healthy_platform_def
          linear_buffer_def FAILED_def)
  have rgb: "\<exists>s' cs converted.
       DrawFrame lost_platform linear_buffer ready_device = Returns (True, s')
     \<and> calls s' = [Device_TestCooperativeLevel, Device_Reset] @ cs
                     @ [SwapChain_GetBackBuffer, Surface_LockRect, Buffer_Lock,
                        Convert FormatConvertorRGB32 converted, Surface_UnlockRect,
                        Device_GetBackBuffer, Device_ColorFill, Device_StretchRect, Device_Present,
                        Buffer_Unlock]
     \<and> filter is_frame_call cs = []
     \<and> count_list (calls s') Device_Reset = 1"
  proof -
    have p: "mRGB32Converter ready_device = Some FormatConvertorRGB32" "mDevice ready_device \<noteq> None"
      "mSwapChain ready_device \<noteq> None" "mFormat ready_device \<noteq> D3DFMT_UNKNOWN"
      "FormatConvertorRGB32 \<in> {FormatConvertorYUY2, FormatConvertorNV12} \<longrightarrow>
         mWidth ready_device \<noteq> - 1 \<and> mHeight ready_device \<noteq> - 1"
      "TestCooperativeLevel_result lost_platform \<in> {D3DERR_DEVICELOST, D3DERR_DEVICENOTRESET}"
      by (simp_all add: ready_device_def lost_platform_def healthy_platform_def D3DFMT_UNKNOWN_def)
    from DrawFrame_device_lost [OF p, of linear_buffer] ok fr obtain s1 cs fs converted where
      c: "calls s1 = calls ready_device @ [Device_TestCooperativeLevel, Device_Reset] @ cs"
         "filter is_frame_call cs = []"
      and d: "DrawFrame lost_platform linear_buffer ready_device
                = Returns (True, log (SwapChain_GetBackBuffer # fs) s1)"
             "SwapChain_GetBackBuffer # fs = frame_calls linear_buffer FormatConvertorRGB32 converted"
      and n: "\<forall>b s'. DrawFrame lost_platform linear_buffer ready_device = Returns (b, s') \<longrightarrow>
                count_list (calls s') Device_Reset = count_list (calls ready_device) Device_Reset + 1"
      by auto
    have "count_list (calls (log (SwapChain_GetBackBuffer # fs) s1)) Device_Reset = 1"
      using n [rule_format, OF d(1)] by (simp add: ready_device_def)
    moreover have "calls (log (SwapChain_GetBackBuffer # fs) s1)
                     = [Device_TestCooperativeLevel, Device_Reset] @ cs
                       @ [SwapChain_GetBackBuffer, Surface_LockRect, Buffer_Lock,
                          Convert FormatConvertorRGB32 converted, Surface_UnlockRect,
                          Device_GetBackBuffer, Device_ColorFill, Device_StretchRect, Device_Present,
                          Buffer_Unlock]"
      unfolding log_fields c(1) d(2)
      by (simp add: frame_calls_def linear_buffer_def ready_device_def)
    ultimately show ?thesis
      using d(1) c(2) by blast
  qed
  have yuy2: "\<exists>s' cs converted.
         DrawFrame lost_platform linear_buffer
           (ready_device \<lparr> mFormat := 0x32595559, mRGB32Converter := Some FormatConvertorYUY2 \<rparr>)
           = Returns (True, s')
       \<and> calls s' = [Device_TestCooperativeLevel, Device_Reset] @ cs
                       @ [SwapChain_GetBackBuffer, Surface_LockRect, Buffer_Lock,
                          Convert FormatConvertorYUY2 converted, Surface_UnlockRect,
                          Device_GetBackBuffer, Device_ColorFill, Device_StretchRect, Device_Present,
                          Buffer_Unlock]
       \<and> filter is_frame_call cs = []"
  proof -
    let ?s = "ready_device \<lparr> mFormat := 0x32595559, mRGB32Converter := Some FormatConvertorYUY2 \<rparr>"
    have p: "mRGB32Converter ?s = Some FormatConvertorYUY2" "mDevice ?s \<noteq> None"
      "mSwapChain ?s \<noteq> None" "mFormat ?s \<noteq> D3DFMT_UNKNOWN"
      "FormatConvertorYUY2 \<in> {FormatConvertorYUY2, FormatConvertorNV12} \<longrightarrow>
         mWidth ?s \<noteq> - 1 \<and> mHeight ?s \<noteq> - 1"
      "TestCooperativeLevel_result lost_platform \<in> {D3DERR_DEVICELOST, D3DERR_DEVICENOTRESET}"
      by (simp_all add: ready_device_def lost_platform_def healthy_platform_def D3DFMT_UNKNOWN_def)
    from DrawFrame_device_lost [OF p, of linear_buffer] ok fr obtain s1 cs fs converted where
      c: "calls s1 = calls ?s @ [Device_TestCooperativeLevel, Device_Reset] @ cs"
         "filter is_frame_call cs = []"
      and d: "DrawFrame lost_platform linear_buffer ?s
                = Returns (True, log (SwapChain_GetBackBuffer # fs) s1)"
             "SwapChain_GetBackBuffer # fs = frame_calls linear_buffer FormatConvertorYUY2 converted"
      by auto
    have "calls (log (SwapChain_GetBackBuffer # fs) s1)
            = [Device_TestCooperativeLevel, Device_Reset] @ cs
              @ [SwapChain_GetBackBuffer, Surface_LockRect, Buffer_Lock,
                 Convert FormatConvertorYUY2 converted, Surface_UnlockRect,
                 Device_GetBackBuffer, Device_ColorFill, Device_StretchRect, Device_Present,
                 Buffer_Unlock]"
      unfolding log_fields c(1) d(2)
      by (simp add: frame_calls_def linear_buffer_def ready_device_def)
    then show ?thesis
      using d(1) c(2) by blast
  qed
  have failed: "\<exists>s'. DrawFrame (lost_platform \<lparr> CreateDevice_hr := 0x88760868 \<rparr>) linear_buffer ready_device
              = Returns (False, s')
         \<and> count_list (calls s') Device_Reset = 1 \<and> filter is_frame_call (calls s') = []"
  proof -
    let ?env = "lost_platform \<lparr> CreateDevice_hr := 0x88760868 \<rparr>"
    have p: "mRGB32Converter ready_device = Some FormatConvertorRGB32" "mDevice ready_device \<noteq> None"
      "mSwapChain ready_device \<noteq> None" "mFormat ready_device \<noteq> D3DFMT_UNKNOWN"
      "FormatConvertorRGB32 \<in> {FormatConvertorYUY2, FormatConvertorNV12} \<longrightarrow>
         mWidth ready_device \<noteq> - 1 \<and> mHeight ready_device \<noteq> - 1"
      "TestCooperativeLevel_result ?env \<in> {D3DERR_DEVICELOST, D3DERR_DEVICENOTRESET}"
      by (simp_all add: ready_device_def lost_platform_def healthy_platform_def D3DFMT_UNKNOWN_def)
    have nok: "\<not> (\<not> FAILED (Reset_hr ?env)
                 \<or> device_created ?env \<and> CreateAdditionalSwapChain_hr ?env = 0)"
      by (simp add: lost_platform_def healthy_platform_def device_created_def FAILED_def)
    from DrawFrame_device_lost [OF p, of linear_buffer] nok obtain s1 cs where
      c: "calls s1 = calls ready_device @ [Device_TestCooperativeLevel, Device_Reset] @ cs"
         "filter is_frame_call cs = []"
      and d: "DrawFrame ?env linear_buffer ready_device = Returns (False, s1)"
      and n: "\<forall>b s'. DrawFrame ?env linear_buffer ready_device = Returns (b, s') \<longrightarrow>
                count_list (calls s') Device_Reset = count_list (calls ready_device) Device_Reset + 1"
      by auto
    have "count_list (calls s1) Device_Reset = 1"
      using n [rule_format, OF d] by (simp add: ready_device_def)
    moreover have "filter is_frame_call (calls s1) = []"
      using c by (simp add: ready_device_def)
    ultimately show ?thesis
      using d by blast
  qed
  show ?thesis
    using rgb yuy2 failed by (intro conjI)
qed




text \<open>
  C8, as stated: \<open>DrawFrame\<close> on a device that is not yet ready would return success.  On
  a freshly constructed device, before any \<open>setVideoType\<close>, it returns \<open>false\<close>.
\<close>

theorem DrawFrame_before_setVideoType_counterexample:
  "DrawFrame healthy_platform linear_buffer DrawDevice_new = Returns (False, DrawDevice_new)"
  by (simp add: DrawFrame_def DrawDevice_new_def)

text \<open>
  C8, amended: \<open>DrawFrame\<close> on a device without a converter (before \<open>setVideoType\<close> has
  selected one) returns failure; with a converter selected and the Direct3D device or the
  swap chain missing it returns success.  In both cases it is a no-op: the state is
  unchanged and no call is made.
\<close>

theorem DrawFrame_not_ready:
  "(mRGB32Converter s = None \<longrightarrow> DrawFrame env pBuffer s = Returns (False, s))
   \<and> (mRGB32Converter s \<noteq> None \<and> (mDevice s = None \<or> mSwapChain s = None) \<longrightarrow>
        DrawFrame env pBuffer s = Returns (True, s))"
  by (simp add: DrawFrame_def)

text \<open>C8 (amended) at a fresh device, a device with only a converter, and a ready
  device that lost its swap chain.\<close>

theorem DrawFrame_not_ready_witness:
  "DrawFrame healthy_platform linear_buffer DrawDevice_new = Returns (False, DrawDevice_new)
   \<and> DrawFrame healthy_platform linear_buffer (DrawDevice_new \<lparr> mRGB32Converter := Some FormatConvertorYUY2 \<rparr>)
       = Returns (True, DrawDevice_new \<lparr> mRGB32Converter := Some FormatConvertorYUY2 \<rparr>)
   \<and> DrawFrame healthy_platform linear_buffer (ready_device \<lparr> mSwapChain := None \<rparr>)
       = Returns (True, ready_device \<lparr> mSwapChain := None \<rparr>)"
  using DrawFrame_not_ready [of DrawDevice_new healthy_platform linear_buffer]
    DrawFrame_not_ready [of "DrawDevice_new \<lparr> mRGB32Converter := Some FormatConvertorYUY2 \<rparr>"
                            healthy_platform linear_buffer]
    DrawFrame_not_ready [of "ready_device \<lparr> mSwapChain := None \<rparr>" healthy_platform linear_buffer]
  by (simp add: DrawDevice_new_def ready_device_def)

end
